theory Spec2Isabelle
  imports
    Complex_Main
    "HOL-Library.AList"
    "HOL-Library.Char_ord"
    "HOL-Library.List_Lexorder"
    "HOL-Library.Multiset"
    "HOL-Library.Product_Lexorder"
begin

section \<open>The backtest engine of JQQuant\<close>

text \<open>
  A shallow embedding of \<^verbatim>\<open>core/backtest_engine.py\<close> (class \<^verbatim>\<open>BacktestEngine\<close>).
  Python floats are taken as real numbers: rounding and the sign of zero are not
  modelled, and overflow is modelled where Python raises an exception on it, in the power
  of line 253. Where the source tells \<^verbatim>\<open>None\<close> or \<^verbatim>\<open>NaN\<close> from a number, the
  model uses an option, and the metrics code, which can meet infinities, uses the type
  \<open>pyfloat\<close> below.
\<close>

subsection \<open>Timestamps\<close>

text \<open>
  The trading dates are the elements of a pandas \<^verbatim>\<open>DatetimeIndex\<close>, that is
  \<^verbatim>\<open>pandas.Timestamp\<close> values (a subclass of \<^verbatim>\<open>datetime\<close>). Their chronological order
  is the lexicographic order of the fields.
\<close>

record timestamp =
  year :: nat
  month :: nat
  day :: nat
  hour :: nat
  minute :: nat
  second :: nat
  nanosecond :: nat

definition chrono :: "timestamp \<Rightarrow> nat \<times> nat \<times> nat \<times> nat \<times> nat \<times> nat \<times> nat" where
  "chrono t = (year t, month t, day t, hour t, minute t, second t, nanosecond t)"

subsection \<open>Orders and the order manager\<close>

text \<open>
  Modelled from the spec: the classes \<^verbatim>\<open>Order\<close>, \<^verbatim>\<open>OrderStatus\<close> and \<^verbatim>\<open>OrderManager\<close> of
  \<^verbatim>\<open>core/order_manager.py\<close> are not part of the sources at hand. The engine reads the
  attributes \<^verbatim>\<open>security\<close>, \<^verbatim>\<open>status\<close>, \<^verbatim>\<open>fill_price\<close>, \<^verbatim>\<open>fill_amount\<close> and \<^verbatim>\<open>fill_time\<close>
  of an order; the requested amount is signed (positive buys, otherwise sells), and the
  fill attributes are unset while the order is pending.
\<close>

datatype OrderStatus = PENDING | FILLED | REJECTED

record Order =
  security :: string
  amount :: real
  status :: OrderStatus
  fill_price :: "real option"
  fill_amount :: "real option"
  fill_time :: "timestamp option"

record OrderManager =
  commission_rate :: real
  slippage :: real
  orders :: "Order list"

text \<open>
  Modelled from the spec: the constructor of \<^verbatim>\<open>Order\<close>, which is missing. A new order is
  pending and has no fill.
\<close>

definition new_order :: "string \<Rightarrow> real \<Rightarrow> Order" where
  "new_order sec amt =
     \<lparr>Order.security = sec, amount = amt, status = PENDING,
      fill_price = None, fill_amount = None, fill_time = None\<rparr>"

text \<open>
  Modelled from the spec: \<^verbatim>\<open>OrderManager.process_order\<close>, which is missing. A pending
  order always fills, in full, at the current price moved by the slippage: up for a buy,
  down for a sell. The result says whether the order was settled, and an order that is no
  longer pending is not settled again.
\<close>

definition process_order :: "OrderManager \<Rightarrow> Order \<Rightarrow> real \<Rightarrow> bool \<times> Order" where
  "process_order om order current_price =
     (if status order \<noteq> PENDING then (False, order)
      else (True, order
        \<lparr>status := FILLED,
         fill_price := Some (if 0 < Order.amount order
                             then current_price * (1 + slippage om)
                             else current_price * (1 - slippage om)),
         fill_amount := Some (Order.amount order)\<rparr>))"

text \<open>
  Modelled from the spec: \<^verbatim>\<open>OrderManager.get_commission\<close>, which is missing:
  \<open>\<bar>fill_amount \<times> fill_price\<bar> \<times> commission_rate\<close>. On an order without a fill the
  product of \<^verbatim>\<open>None\<close> raises \<^verbatim>\<open>TypeError\<close>; that is the result \<open>None\<close> here.
\<close>

definition get_commission :: "OrderManager \<Rightarrow> Order \<Rightarrow> real option" where
  "get_commission om order =
     (case (fill_amount order, fill_price order) of
        (Some fa, Some fp) \<Rightarrow> Some (\<bar>fa * fp\<bar> * commission_rate om)
      | _ \<Rightarrow> None)"

text \<open>
  Modelled from the spec: \<^verbatim>\<open>OrderManager.get_filled_orders\<close>, which is missing: the filled
  orders, in submission order.
\<close>

definition get_filled_orders :: "OrderManager \<Rightarrow> Order list" where
  "get_filled_orders om = filter (\<lambda>order. status order = FILLED) (orders om)"

subsection \<open>Positions and the portfolio\<close>

text \<open>
  Modelled from the spec: the classes \<^verbatim>\<open>Position\<close> and \<^verbatim>\<open>Portfolio\<close> of
  \<^verbatim>\<open>core/portfolio.py\<close> are not part of the sources at hand. The engine reads and writes
  \<^verbatim>\<open>cash\<close>, reads \<^verbatim>\<open>amount\<close> of a position and the three history lists, and calls the
  methods below. The positions are a dictionary from security to position, kept here
  as an association list in insertion order.
\<close>

record Position =
  security :: string
  amount :: real
  avg_cost :: real
  last_price :: real

record Portfolio =
  initial_cash :: real
  cash :: real
  positions :: "(string \<times> Position) list"
  date_history :: "timestamp list"
  total_value_history :: "real list"
  cash_history :: "real list"

definition new_portfolio :: "real \<Rightarrow> Portfolio" where
  "new_portfolio c =
     \<lparr>initial_cash = c, cash = c, positions = [],
      date_history = [], total_value_history = [], cash_history = []\<rparr>"

definition get_position :: "Portfolio \<Rightarrow> string \<Rightarrow> Position option" where
  "get_position pf sec = map_of (positions pf) sec"

text \<open>
  Modelled from the spec: \<^verbatim>\<open>Portfolio.add_position\<close>. A first buy creates the position
  with the fill price as its cost basis (and as its mark, until the next price update); a
  later buy adds the amount and takes the amount-weighted average of the two costs.
\<close>

definition add_position :: "Portfolio \<Rightarrow> string \<Rightarrow> real \<Rightarrow> real \<Rightarrow> Portfolio" where
  "add_position pf sec amt price =
     (case get_position pf sec of
        None \<Rightarrow>
          pf\<lparr>positions := AList.update sec
               \<lparr>Position.security = sec, amount = amt, avg_cost = price, last_price = price\<rparr>
               (positions pf)\<rparr>
      | Some pos \<Rightarrow>
          pf\<lparr>positions := AList.update sec
               (pos\<lparr>Position.amount := Position.amount pos + amt,
                    avg_cost := (Position.amount pos * avg_cost pos + amt * price)
                                / (Position.amount pos + amt)\<rparr>)
               (positions pf)\<rparr>)"

text \<open>
  Modelled from the spec: \<^verbatim>\<open>Portfolio.remove_position\<close>. The amount goes down, the cost
  basis stays, and a position sold out stays in the dictionary with amount 0. The caller
  checks that enough is held; the engine does so before each call.
\<close>

definition remove_position :: "Portfolio \<Rightarrow> string \<Rightarrow> real \<Rightarrow> real \<Rightarrow> Portfolio" where
  "remove_position pf sec amt price =
     (case get_position pf sec of
        None \<Rightarrow> pf
      | Some pos \<Rightarrow>
          pf\<lparr>positions := AList.update sec
               (pos\<lparr>Position.amount := Position.amount pos - amt\<rparr>) (positions pf)\<rparr>)"

text \<open>
  Modelled from the spec: \<^verbatim>\<open>Portfolio.update_prices\<close>. Every held security that has a
  price in the dictionary is marked to it; cash is not touched.
\<close>

definition update_prices :: "Portfolio \<Rightarrow> (string \<rightharpoonup> real) \<Rightarrow> Portfolio" where
  "update_prices pf prices =
     pf\<lparr>positions :=
          map (\<lambda>(sec, pos). (sec, case prices sec of None \<Rightarrow> pos
                                    | Some p \<Rightarrow> pos\<lparr>last_price := p\<rparr>))
              (positions pf)\<rparr>"

text \<open>
  Modelled from the spec: the total value is the cash plus amount times last price over
  the positions with a positive amount.
\<close>

definition total_value :: "Portfolio \<Rightarrow> real" where
  "total_value pf =
     cash pf + sum_list (map (\<lambda>(sec, pos). if 0 < Position.amount pos
                                             then Position.amount pos * last_price pos else 0)
                             (positions pf))"

text \<open>
  Modelled from the spec: \<^verbatim>\<open>Portfolio.record\<close> appends the date, the total value and the
  cash to the three histories.
\<close>

definition record_snapshot :: "Portfolio \<Rightarrow> timestamp \<Rightarrow> Portfolio" where
  "record_snapshot pf d =
     pf\<lparr>date_history := date_history pf @ [d],
        total_value_history := total_value_history pf @ [total_value pf],
        cash_history := cash_history pf @ [cash pf]\<rparr>"

record Summary =
  summary_cash :: real
  summary_total_value :: real
  total_profit_rate :: real

text \<open>
  Modelled from the spec: \<^verbatim>\<open>Portfolio.get_summary\<close>: the cash, the total value and the
  total profit rate, total value over initial cash minus one. The division is the one of
  the reals; the spec does not say what the method does with an initial cash of zero.
\<close>

definition get_summary :: "Portfolio \<Rightarrow> Summary" where
  "get_summary pf =
     \<lparr>summary_cash = cash pf, summary_total_value = total_value pf,
      total_profit_rate = total_value pf / initial_cash pf - 1\<rparr>"

subsection \<open>Price data\<close>

text \<open>
  The price data are a pandas \<^verbatim>\<open>DataFrame\<close>. The engine looks at whether the frame is
  empty, whether its index is a \<^verbatim>\<open>DatetimeIndex\<close>, whether it has the columns
  \<^verbatim>\<open>security\<close> and \<^verbatim>\<open>close\<close>, and at the index label and these two cells of each row.
  A \<open>close\<close> cell is a number or missing (\<^verbatim>\<open>NaN\<close>, \<^verbatim>\<open>None\<close>). A frame is empty when it
  has no rows or no columns.
\<close>

record row =
  idx :: timestamp
  row_security :: string
  close :: "real option"

record DataFrame =
  columns :: "string list"
  datetime_index :: bool
  rows :: "row list"

definition df_empty :: "DataFrame \<Rightarrow> bool" where
  "df_empty df \<longleftrightarrow> rows df = [] \<or> columns df = []"

text \<open>
  The data of one day are a \<^verbatim>\<open>Series\<close> (one row, its labels the columns of the frame) or
  a \<^verbatim>\<open>DataFrame\<close> (several rows). \<^verbatim>\<open>pd.Series()\<close> is a series without labels and
  \<^verbatim>\<open>pd.DataFrame()\<close> a frame without columns and rows.
\<close>

datatype daily_data = Series "string list" row | Frame "string list" "row list"

definition no_row :: row where
  "no_row = \<lparr>idx = \<lparr>year = 0, month = 0, day = 0, hour = 0, minute = 0, second = 0,
                     nanosecond = 0\<rparr>,
             row_security = [], close = None\<rparr>"

definition empty_series :: daily_data where
  "empty_series = Series [] no_row"

definition empty_frame :: daily_data where
  "empty_frame = Frame [] []"

fun daily_empty :: "daily_data \<Rightarrow> bool" where
  "daily_empty (Series labels r) = (labels = [])"
| "daily_empty (Frame cols rs) = (rs = [] \<or> cols = [])"

text \<open>
  The price of a security in the data of a day, as \<^verbatim>\<open>_process_orders\<close> looks it up
  (lines 189 to 208). The result \<open>None\<close> is the case \<^verbatim>\<open>current_price is None or
  pd.isna(current_price)\<close>. On a frame without rows \<^verbatim>\<open>iloc[0]\<close> raises \<^verbatim>\<open>IndexError\<close>,
  which the handler of the loop body catches: the order is left alone there as well.
\<close>

fun current_price :: "daily_data \<Rightarrow> string \<Rightarrow> real option" where
  "current_price (Series labels r) sec =
     (if ''close'' \<in> set labels then close r else None)"
| "current_price (Frame cols rs) sec =
     (if ''security'' \<in> set cols then
        (case filter (\<lambda>r. row_security r = sec) rs of
           [] \<Rightarrow> None
         | r # _ \<Rightarrow> if ''close'' \<in> set cols then close r else None)
      else if ''close'' \<in> set cols then
        (case rs of [] \<Rightarrow> None | r # _ \<Rightarrow> close r)
      else None)"

subsection \<open>The strategy\<close>

text \<open>
  Modelled from the spec: the class \<^verbatim>\<open>BaseStrategy\<close> of \<^verbatim>\<open>strategies/base_strategy.py\<close>
  is not part of the sources at hand. A strategy has a state of its own and four
  callbacks. A callback reads the portfolio and the order manager, changes the state of
  the strategy, submits orders by appending them to the backlog of the order manager,
  and returns or raises an exception (after the orders it has submitted so far).
\<close>

record 'st hook_result =
  new_state :: 'st
  submitted :: "(string \<times> real) list"
  raised :: bool

type_synonym 'st hook = "Portfolio \<Rightarrow> OrderManager \<Rightarrow> 'st \<Rightarrow> 'st hook_result"

record 'st BaseStrategy =
  state :: 'st
  context_securities :: "string list"
  initialize :: "'st hook"
  before_trading_start :: "timestamp \<Rightarrow> 'st hook"
  handle_data :: "daily_data \<Rightarrow> timestamp \<Rightarrow> 'st hook"
  after_trading_end :: "timestamp \<Rightarrow> 'st hook"

subsection \<open>Results\<close>

text \<open>
  The values of the metrics are floats that may be infinite or \<^verbatim>\<open>NaN\<close>: a percentage
  change divides by the value of the day before, and the standard deviation of fewer than
  two points is \<^verbatim>\<open>NaN\<close>.
\<close>

datatype pyfloat = Num real | PInf | NInf | NaN

datatype direction = Buy | Sell

text \<open>
  An entry of the trade history. The source writes the direction as a string; the two
  strings are the two values of \<open>direction\<close>.
\<close>

record Trade =
  date :: string
  security :: string
  trade_type :: direction
  amount :: real
  price :: real
  trade_value :: real
  commission :: real
  net_value :: real

text \<open>
  The annual return of line 253 is a power of Python floats. With a negative base and an
  exponent that is not an integer the power is a complex number, whose value is not
  followed here. The maximum drawdown of line 255 is left out of the metrics: it is
  computed from the series by pandas operations, which give \<^verbatim>\<open>NaN\<close> or an infinity where
  plain Python would raise.
\<close>

datatype annual_value = Real_value real | Complex_value

record Metrics =
  total_return :: real
  annual_return :: annual_value
  sharpe_ratio :: pyfloat
  total_trades :: nat

record Results =
  summary :: Summary
  returns :: "(timestamp \<times> real) list"
  returns_pct :: "pyfloat list"
  metrics :: Metrics
  history_dates :: "timestamp list"
  history_total_value :: "real list"
  history_cash :: "real list"
  trade_history :: "Trade list"

datatype error = NoStrategy | NoData | ValueError | OverflowError | TypeError

subsection \<open>The engine\<close>

record 'st BacktestEngine =
  data_provider :: "string list \<Rightarrow> timestamp \<Rightarrow> timestamp \<Rightarrow> string \<Rightarrow> DataFrame"
  portfolio :: Portfolio
  order_manager :: OrderManager
  strategy :: "'st BaseStrategy option"
  results :: "Results option"

text \<open>\<^verbatim>\<open>BacktestEngine.__init__\<close>, lines 20 to 43.\<close>

definition init_engine ::
  "(string list \<Rightarrow> timestamp \<Rightarrow> timestamp \<Rightarrow> string \<Rightarrow> DataFrame) \<Rightarrow> real \<Rightarrow> real \<Rightarrow> real
     \<Rightarrow> 'st BacktestEngine" where
  "init_engine dp initial_cash0 commission_rate0 slippage0 =
     \<lparr>data_provider = dp,
      portfolio = new_portfolio initial_cash0,
      order_manager = \<lparr>commission_rate = commission_rate0, slippage = slippage0, orders = []\<rparr>,
      strategy = None,
      results = None\<rparr>"

text \<open>
  A call of a callback of the attached strategy. Without a strategy the attribute access
  on \<^verbatim>\<open>None\<close> raises.
\<close>

definition call_hook ::
  "('st BaseStrategy \<Rightarrow> 'st hook) \<Rightarrow> 'st BacktestEngine \<Rightarrow> bool \<times> 'st BacktestEngine" where
  "call_hook h self =
     (case strategy self of
        None \<Rightarrow> (True, self)
      | Some strat \<Rightarrow>
          let r = h strat (portfolio self) (order_manager self) (state strat);
              om = order_manager self
          in (raised r,
              self\<lparr>strategy := Some (strat\<lparr>state := new_state r\<rparr>),
                   order_manager :=
                     om\<lparr>orders := orders om @ map (\<lambda>(sec, amt). new_order sec amt) (submitted r)\<rparr>\<rparr>))"

text \<open>\<^verbatim>\<open>set_strategy\<close>, lines 45 to 60. The result says whether \<^verbatim>\<open>initialize\<close> raised.\<close>

definition set_strategy :: "'st BacktestEngine \<Rightarrow> 'st BaseStrategy \<Rightarrow> bool \<times> 'st BacktestEngine" where
  "set_strategy self strat =
     call_hook initialize (self\<lparr>strategy := Some (strat\<lparr>context_securities := []\<rparr>)\<rparr>)"

text \<open>
  The body of the loop of \<^verbatim>\<open>_process_orders\<close>, lines 186 to 241, for the order at place
  \<open>i\<close> of the backlog. The exceptions of the body are caught at line 240, so the body
  ends with the changes made so far.
\<close>

definition settle_order ::
  "timestamp \<Rightarrow> daily_data \<Rightarrow> nat \<Rightarrow> 'st BacktestEngine \<Rightarrow> 'st BacktestEngine" where
  "settle_order date0 daily i self =
     (let om = order_manager self in
      if length (orders om) \<le> i then self
      else
        let order = orders om ! i in
        case current_price daily (Order.security order) of
          None \<Rightarrow> self
        | Some p \<Rightarrow>
            (case process_order om order p of
               (False, order1) \<Rightarrow>
                 self\<lparr>order_manager := om\<lparr>orders := (orders om)[i := order1]\<rparr>\<rparr>
             | (True, order1) \<Rightarrow>
                 let order2 = (if fill_time order1 = None
                               then order1\<lparr>fill_time := Some date0\<rparr> else order1);
                     self2 = self\<lparr>order_manager := om\<lparr>orders := (orders om)[i := order2]\<rparr>\<rparr>;
                     pf = portfolio self
                 in
                 (case (get_commission om order2, fill_amount order2, fill_price order2) of
                    (Some commission0, Some fa, Some fp) \<Rightarrow>
                      if 0 < fa then
                        let cost = fa * fp + commission0 in
                        if cost \<le> cash pf then
                          self2\<lparr>portfolio :=
                            add_position (pf\<lparr>cash := cash pf - cost\<rparr>)
                              (Order.security order2) fa fp\<rparr>
                        else self2
                      else
                        (case get_position pf (Order.security order2) of
                           None \<Rightarrow> self2
                         | Some position \<Rightarrow>
                             if \<bar>fa\<bar> \<le> Position.amount position then
                               let revenue = \<bar>fa\<bar> * fp - commission0 in
                               self2\<lparr>portfolio :=
                                 remove_position (pf\<lparr>cash := cash pf + revenue\<rparr>)
                                   (Order.security order2) \<bar>fa\<bar> fp\<rparr>
                             else self2)
                  | _ \<Rightarrow> self2)))"

text \<open>
  \<^verbatim>\<open>_process_orders\<close>, lines 179 to 241: the pending orders are collected first
  (line 183), then settled one after the other.
\<close>

definition pending_orders :: "OrderManager \<Rightarrow> nat list" where
  "pending_orders om = filter (\<lambda>i. status (orders om ! i) = PENDING) [0..<length (orders om)]"

definition process_orders ::
  "timestamp \<Rightarrow> daily_data \<Rightarrow> 'st BacktestEngine \<Rightarrow> 'st BacktestEngine" where
  "process_orders date0 daily self =
     fold (settle_order date0 daily) (pending_orders (order_manager self)) self"

subsection \<open>One trading date\<close>

text \<open>
  The data of the current date, lines 112 to 117. With a \<^verbatim>\<open>security\<close> column the rows of
  the date are selected by a mask and stay a frame. Without it \<^verbatim>\<open>loc\<close> gives a series
  when the date labels one row and a frame when it labels several.
\<close>

definition daily_slice :: "DataFrame \<Rightarrow> timestamp \<Rightarrow> daily_data" where
  "daily_slice all_data current_date =
     (let todays = filter (\<lambda>r. idx r = current_date) (rows all_data) in
      if ''security'' \<in> set (columns all_data) then
        (if current_date \<in> idx ` set (rows all_data)
         then Frame (columns all_data) todays else empty_frame)
      else
        (if current_date \<in> idx ` set (rows all_data)
         then (case todays of [r] \<Rightarrow> Series (columns all_data) r
                            | _ \<Rightarrow> Frame (columns all_data) todays)
         else empty_series))"

text \<open>
  The closing price of one security, lines 139 to 153, with the test of line 155: the
  result \<open>None\<close> is a price that is \<^verbatim>\<open>None\<close> or \<^verbatim>\<open>NaN\<close>, or an exception caught at
  line 157.
\<close>

fun closing_price :: "DataFrame \<Rightarrow> daily_data \<Rightarrow> string \<Rightarrow> real option" where
  "closing_price all_data (Series labels r) sec =
     (if ''security'' \<in> set (columns all_data) then None
      else if ''close'' \<in> set labels then close r else None)"
| "closing_price all_data (Frame cols rs) sec =
     (if ''security'' \<in> set (columns all_data) then
        (if ''security'' \<in> set cols then
           (case filter (\<lambda>r. row_security r = sec) rs of
              [] \<Rightarrow> None
            | r # _ \<Rightarrow> if ''close'' \<in> set cols then close r else None)
         else None)
      else if ''close'' \<in> set cols then
        (case rs of [] \<Rightarrow> None | r # _ \<Rightarrow> close r)
      else None)"

definition day_prices :: "DataFrame \<Rightarrow> daily_data \<Rightarrow> string list \<Rightarrow> (string \<rightharpoonup> real)" where
  "day_prices all_data daily securities =
     fold (\<lambda>sec prices. case closing_price all_data daily sec of
                           None \<Rightarrow> prices
                         | Some p \<Rightarrow> prices(sec \<mapsto> p))
          securities Map.empty"

text \<open>
  The body of the loop over the dates, lines 110 to 171. A date without data is left out
  (\<^verbatim>\<open>continue\<close>, lines 119 to 124). An exception of a callback ends the work on the
  date at the handler of line 169, and the loop goes on; what was changed before stays
  changed. The outcome says which way the body ended.
\<close>

datatype date_outcome = Recorded | Skipped | Caught

definition process_date ::
  "DataFrame \<Rightarrow> string list \<Rightarrow> timestamp \<Rightarrow> 'st BacktestEngine
     \<Rightarrow> date_outcome \<times> 'st BacktestEngine" where
  "process_date all_data securities current_date self =
     (let daily = daily_slice all_data current_date in
      if daily_empty daily then (Skipped, self)
      else
        case call_hook (\<lambda>strat. before_trading_start strat current_date) self of
          (True, self1) \<Rightarrow> (Caught, self1)
        | (False, self1) \<Rightarrow>
            (case call_hook (\<lambda>strat. handle_data strat daily current_date) self1 of
               (True, self2) \<Rightarrow> (Caught, self2)
             | (False, self2) \<Rightarrow>
                 let self3 = process_orders current_date daily self2;
                     prices = day_prices all_data daily securities;
                     self4 = self3\<lparr>portfolio := update_prices (portfolio self3) prices\<rparr>
                 in
                 (case call_hook (\<lambda>strat. after_trading_end strat current_date) self4 of
                    (True, self5) \<Rightarrow> (Caught, self5)
                  | (False, self5) \<Rightarrow>
                      (Recorded,
                       self5\<lparr>portfolio := record_snapshot (portfolio self5) current_date\<rparr>))))"

text \<open>The loop over the dates, line 109.\<close>

definition process_dates ::
  "DataFrame \<Rightarrow> string list \<Rightarrow> timestamp list \<Rightarrow> 'st BacktestEngine \<Rightarrow> 'st BacktestEngine" where
  "process_dates all_data securities dates self =
     fold (\<lambda>current_date engine. snd (process_date all_data securities current_date engine))
       dates self"

subsection \<open>The settlement loop for any fill model\<close>

text \<open>
  \<^verbatim>\<open>OrderManager.process_order\<close> is not part of the sources at hand. The loop body of
  \<^verbatim>\<open>_process_orders\<close>, the loop and the loop over the dates are written here once more,
  word for word, with a function \<open>po\<close> called at line 211 in the place of
  \<open>process_order\<close>, so that what the engine does can be told from what the fill model
  does.
\<close>

definition settle_order_with ::
  "(OrderManager \<Rightarrow> Order \<Rightarrow> real \<Rightarrow> bool \<times> Order)
     \<Rightarrow> timestamp \<Rightarrow> daily_data \<Rightarrow> nat \<Rightarrow> 'st BacktestEngine \<Rightarrow> 'st BacktestEngine" where
  "settle_order_with po date0 daily i self =
     (let om = order_manager self in
      if length (orders om) \<le> i then self
      else
        let order = orders om ! i in
        case current_price daily (Order.security order) of
          None \<Rightarrow> self
        | Some p \<Rightarrow>
            (case po om order p of
               (False, order1) \<Rightarrow>
                 self\<lparr>order_manager := om\<lparr>orders := (orders om)[i := order1]\<rparr>\<rparr>
             | (True, order1) \<Rightarrow>
                 let order2 = (if fill_time order1 = None
                               then order1\<lparr>fill_time := Some date0\<rparr> else order1);
                     self2 = self\<lparr>order_manager := om\<lparr>orders := (orders om)[i := order2]\<rparr>\<rparr>;
                     pf = portfolio self
                 in
                 (case (get_commission om order2, fill_amount order2, fill_price order2) of
                    (Some commission0, Some fa, Some fp) \<Rightarrow>
                      if 0 < fa then
                        let cost = fa * fp + commission0 in
                        if cost \<le> cash pf then
                          self2\<lparr>portfolio :=
                            add_position (pf\<lparr>cash := cash pf - cost\<rparr>)
                              (Order.security order2) fa fp\<rparr>
                        else self2
                      else
                        (case get_position pf (Order.security order2) of
                           None \<Rightarrow> self2
                         | Some position \<Rightarrow>
                             if \<bar>fa\<bar> \<le> Position.amount position then
                               let revenue = \<bar>fa\<bar> * fp - commission0 in
                               self2\<lparr>portfolio :=
                                 remove_position (pf\<lparr>cash := cash pf + revenue\<rparr>)
                                   (Order.security order2) \<bar>fa\<bar> fp\<rparr>
                             else self2)
                  | _ \<Rightarrow> self2)))"

definition process_orders_with ::
  "(OrderManager \<Rightarrow> Order \<Rightarrow> real \<Rightarrow> bool \<times> Order)
     \<Rightarrow> timestamp \<Rightarrow> daily_data \<Rightarrow> 'st BacktestEngine \<Rightarrow> 'st BacktestEngine" where
  "process_orders_with po date0 daily self =
     fold (settle_order_with po date0 daily) (pending_orders (order_manager self)) self"

definition process_date_with ::
  "(OrderManager \<Rightarrow> Order \<Rightarrow> real \<Rightarrow> bool \<times> Order)
     \<Rightarrow> DataFrame \<Rightarrow> string list \<Rightarrow> timestamp \<Rightarrow> 'st BacktestEngine
     \<Rightarrow> date_outcome \<times> 'st BacktestEngine" where
  "process_date_with po all_data securities current_date self =
     (let daily = daily_slice all_data current_date in
      if daily_empty daily then (Skipped, self)
      else
        case call_hook (\<lambda>strat. before_trading_start strat current_date) self of
          (True, self1) \<Rightarrow> (Caught, self1)
        | (False, self1) \<Rightarrow>
            (case call_hook (\<lambda>strat. handle_data strat daily current_date) self1 of
               (True, self2) \<Rightarrow> (Caught, self2)
             | (False, self2) \<Rightarrow>
                 let self3 = process_orders_with po current_date daily self2;
                     prices = day_prices all_data daily securities;
                     self4 = self3\<lparr>portfolio := update_prices (portfolio self3) prices\<rparr>
                 in
                 (case call_hook (\<lambda>strat. after_trading_end strat current_date) self4 of
                    (True, self5) \<Rightarrow> (Caught, self5)
                  | (False, self5) \<Rightarrow>
                      (Recorded,
                       self5\<lparr>portfolio := record_snapshot (portfolio self5) current_date\<rparr>))))"

definition process_dates_with ::
  "(OrderManager \<Rightarrow> Order \<Rightarrow> real \<Rightarrow> bool \<times> Order)
     \<Rightarrow> DataFrame \<Rightarrow> string list \<Rightarrow> timestamp list \<Rightarrow> 'st BacktestEngine
     \<Rightarrow> 'st BacktestEngine" where
  "process_dates_with po all_data securities dates self =
     fold (\<lambda>current_date engine.
             snd (process_date_with po all_data securities current_date engine))
       dates self"

text \<open>
  Two fill models agree on the pending orders when they do the same with every order
  whose status is pending.
\<close>

definition agree_on_pending ::
  "(OrderManager \<Rightarrow> Order \<Rightarrow> real \<Rightarrow> bool \<times> Order)
     \<Rightarrow> (OrderManager \<Rightarrow> Order \<Rightarrow> real \<Rightarrow> bool \<times> Order) \<Rightarrow> bool" where
  "agree_on_pending po po' \<longleftrightarrow>
     (\<forall>om order p. status order = PENDING \<longrightarrow> po om order p = po' om order p)"

text \<open>
  A fill model that checks nothing: it fills whatever order it is given, pending or not,
  at the price with the slippage.
\<close>

definition fill_always :: "OrderManager \<Rightarrow> Order \<Rightarrow> real \<Rightarrow> bool \<times> Order" where
  "fill_always om order price0 =
     (True, order\<lparr>status := FILLED,
        fill_price := Some (if 0 < Order.amount order then price0 * (1 + slippage om)
                            else price0 * (1 - slippage om)),
        fill_amount := Some (Order.amount order)\<rparr>)"

subsection \<open>Float arithmetic with infinities\<close>

fun fneg :: "pyfloat \<Rightarrow> pyfloat" where
  "fneg (Num a) = Num (- a)"
| "fneg PInf = NInf"
| "fneg NInf = PInf"
| "fneg NaN = NaN"

fun fadd :: "pyfloat \<Rightarrow> pyfloat \<Rightarrow> pyfloat" where
  "fadd NaN y = NaN"
| "fadd x NaN = NaN"
| "fadd (Num a) (Num b) = Num (a + b)"
| "fadd PInf NInf = NaN"
| "fadd NInf PInf = NaN"
| "fadd PInf y = PInf"
| "fadd x PInf = PInf"
| "fadd NInf y = NInf"
| "fadd x NInf = NInf"

definition fsub :: "pyfloat \<Rightarrow> pyfloat \<Rightarrow> pyfloat" where
  "fsub x y = fadd x (fneg y)"

fun fsign :: "pyfloat \<Rightarrow> real" where
  "fsign (Num a) = sgn a"
| "fsign PInf = 1"
| "fsign NInf = - 1"
| "fsign NaN = 0"

definition signed_inf :: "real \<Rightarrow> pyfloat" where
  "signed_inf s = (if s = 0 then NaN else if 0 < s then PInf else NInf)"

fun fmul :: "pyfloat \<Rightarrow> pyfloat \<Rightarrow> pyfloat" where
  "fmul NaN y = NaN"
| "fmul x NaN = NaN"
| "fmul (Num a) (Num b) = Num (a * b)"
| "fmul x y = signed_inf (fsign x * fsign y)"

text \<open>Division as numpy does it: a division by zero gives an infinity or \<^verbatim>\<open>NaN\<close>.\<close>

fun fdiv :: "pyfloat \<Rightarrow> pyfloat \<Rightarrow> pyfloat" where
  "fdiv NaN y = NaN"
| "fdiv x NaN = NaN"
| "fdiv (Num a) (Num b) = (if b = 0 then signed_inf a else Num (a / b))"
| "fdiv (Num a) y = Num 0"
| "fdiv x (Num b) = (if b = 0 then x else signed_inf (fsign x * b))"
| "fdiv x y = NaN"

fun fsqrt :: "pyfloat \<Rightarrow> pyfloat" where
  "fsqrt (Num a) = (if a < 0 then NaN else Num (sqrt a))"
| "fsqrt PInf = PInf"
| "fsqrt NInf = NaN"
| "fsqrt NaN = NaN"

fun fgt0 :: "pyfloat \<Rightarrow> bool" where
  "fgt0 (Num a) = (0 < a)"
| "fgt0 PInf = True"
| "fgt0 NInf = False"
| "fgt0 NaN = False"

subsection \<open>The pandas operations of the metrics\<close>

text \<open>
  \<^verbatim>\<open>Series.pct_change\<close>: each value over the one before, minus one; the first has none
  before it. \<^verbatim>\<open>fillna(0)\<close> replaces \<^verbatim>\<open>NaN\<close> by zero.
\<close>

fun pct_change :: "real list \<Rightarrow> pyfloat list" where
  "pct_change [] = []"
| "pct_change (v # vs) =
     NaN # map (\<lambda>(prev, cur). fsub (fdiv (Num cur) (Num prev)) (Num 1)) (zip (v # vs) vs)"

definition fillna0 :: "pyfloat list \<Rightarrow> pyfloat list" where
  "fillna0 xs = map (\<lambda>x. if x = NaN then Num 0 else x) xs"

definition series_sum :: "pyfloat list \<Rightarrow> pyfloat" where
  "series_sum xs = foldl fadd (Num 0) xs"

text \<open>
  \<^verbatim>\<open>Series.mean\<close> and \<^verbatim>\<open>Series.std\<close> skip \<^verbatim>\<open>NaN\<close>; the standard deviation is the one of
  a sample (divisor \<open>n - 1\<close>), \<^verbatim>\<open>NaN\<close> for fewer than two values.
\<close>

definition mean :: "pyfloat list \<Rightarrow> pyfloat" where
  "mean xs =
     (let vs = filter (\<lambda>x. x \<noteq> NaN) xs in
      if vs = [] then NaN else fdiv (series_sum vs) (Num (real (length vs))))"

definition std :: "pyfloat list \<Rightarrow> pyfloat" where
  "std xs =
     (let vs = filter (\<lambda>x. x \<noteq> NaN) xs in
      if length vs \<le> 1 then NaN
      else
        let avg = fdiv (series_sum vs) (Num (real (length vs)));
            sqr = map (\<lambda>x. fmul (fsub avg x) (fsub avg x)) vs
        in fsqrt (fdiv (series_sum sqr) (Num (real (length vs - 1)))))"

subsection \<open>Results\<close>

text \<open>\<^verbatim>\<open>strftime('%Y-%m-%d %H:%M:%S')\<close> on a timestamp.\<close>

definition digit :: "nat \<Rightarrow> char" where
  "digit n = ''0123456789'' ! (n mod 10)"

definition pad2 :: "nat \<Rightarrow> string" where
  "pad2 n = [digit (n div 10), digit n]"

definition pad4 :: "nat \<Rightarrow> string" where
  "pad4 n = [digit (n div 1000), digit (n div 100), digit (n div 10), digit n]"

definition strftime :: "timestamp \<Rightarrow> string" where
  "strftime t =
     pad4 (year t) @ ''-'' @ pad2 (month t) @ ''-'' @ pad2 (day t) @ '' '' @
     pad2 (hour t) @ '':'' @ pad2 (minute t) @ '':'' @ pad2 (second t)"

text \<open>The Sharpe ratio, line 254.\<close>

definition sharpe :: "pyfloat list \<Rightarrow> pyfloat" where
  "sharpe returns_pct0 =
     (if fgt0 (std returns_pct0)
      then fmul (fdiv (mean returns_pct0) (std returns_pct0)) (Num (sqrt 252))
      else Num 0)"

text \<open>
  The entry of the trade history for a filled order with a fill time, lines 262 to 283.
  A fill amount or fill price that is \<^verbatim>\<open>None\<close> raises \<^verbatim>\<open>TypeError\<close>.
\<close>

definition trade_record :: "Order \<Rightarrow> timestamp \<Rightarrow> real \<Rightarrow> real \<Rightarrow> real \<Rightarrow> Trade" where
  "trade_record order t fa fp commission0 =
     (let trade_value0 = \<bar>fa * fp\<bar> in
      \<lparr>date = strftime t,
       security = Order.security order,
       trade_type = (if 0 < fa then Buy else Sell),
       amount = \<bar>fa\<bar>,
       price = fp,
       trade_value = trade_value0,
       commission = commission0,
       net_value = (if 0 < fa then - (trade_value0 + commission0)
                    else trade_value0 - commission0)\<rparr>)"

definition trade_entry :: "OrderManager \<Rightarrow> Order \<Rightarrow> timestamp \<Rightarrow> error + Trade" where
  "trade_entry om order t =
     (case (fill_amount order, fill_price order, get_commission om order) of
        (Some fa, Some fp, Some commission0) \<Rightarrow> Inr (trade_record order t fa fp commission0)
      | _ \<Rightarrow> Inl TypeError)"

text \<open>The loop over the filled orders, lines 260 to 283.\<close>

fun trade_entries :: "OrderManager \<Rightarrow> Order list \<Rightarrow> error + Trade list" where
  "trade_entries om [] = Inr []"
| "trade_entries om (order # rest) =
     (case (if status order = FILLED then fill_time order else None) of
        None \<Rightarrow> trade_entries om rest
      | Some t \<Rightarrow>
          (case trade_entry om order t of
             Inl e \<Rightarrow> Inl e
           | Inr entry \<Rightarrow>
               (case trade_entries om rest of
                  Inl e \<Rightarrow> Inl e
                | Inr entries \<Rightarrow> Inr (entry # entries))))"

text \<open>
  The annual return, line 253: \<^verbatim>\<open>(1 + total_return) ** (252 / len(returns)) - 1\<close>, and 0
  for an empty series. The power of two Python floats raises \<^verbatim>\<open>OverflowError\<close> when its
  result is beyond the largest float, \<open>float_max\<close>; no handler is around line 253. A
  base of zero with a positive exponent gives zero. A negative base gives a real number
  only when the exponent is a whole number, with the sign of its parity.
\<close>

definition float_max :: real where
  "float_max = (2 - 1 / 2 ^ 52) * 2 ^ 1023"

definition annualize :: "real \<Rightarrow> nat \<Rightarrow> error + annual_value" where
  "annualize total_return0 n =
     (if n = 0 then Inr (Real_value 0)
      else
        let base = 1 + total_return0; e = 252 / real n in
        if base = 0 then Inr (Real_value (- 1))
        else if float_max < \<bar>base\<bar> powr e then Inl OverflowError
        else if 0 < base then Inr (Real_value (base powr e - 1))
        else if n dvd 252 then
          Inr (Real_value ((if even (252 div n) then 1 else - 1) * (\<bar>base\<bar> powr e) - 1))
        else Inr Complex_value)"

text \<open>
  \<^verbatim>\<open>_generate_results\<close>, lines 243 to 305. \<^verbatim>\<open>pd.Series(values, index=dates)\<close> raises
  \<^verbatim>\<open>ValueError\<close> when the two lists differ in length; then comes the annual return, and
  then the loop over the filled orders.
\<close>

definition generate_results :: "'st BacktestEngine \<Rightarrow> error + Results" where
  "generate_results self =
     (let pf = portfolio self;
          om = order_manager self;
          summary0 = get_summary pf
      in
      if length (total_value_history pf) \<noteq> length (date_history pf) then Inl ValueError
      else
        let returns0 = zip (date_history pf) (total_value_history pf);
            returns_pct0 = fillna0 (pct_change (total_value_history pf));
            total_return0 = total_profit_rate summary0
        in
        case annualize total_return0 (length returns0) of
          Inl e \<Rightarrow> Inl e
        | Inr annual_return0 \<Rightarrow>
            let filled_orders = get_filled_orders om in
            (case trade_entries om filled_orders of
               Inl e \<Rightarrow> Inl e
             | Inr entries \<Rightarrow>
                 Inr \<lparr>summary = summary0,
                      returns = returns0,
                      returns_pct = returns_pct0,
                      metrics = \<lparr>total_return = total_return0,
                                 annual_return = annual_return0,
                                 sharpe_ratio = sharpe returns_pct0,
                                 total_trades = length filled_orders\<rparr>,
                      history_dates = date_history pf,
                      history_total_value = total_value_history pf,
                      history_cash = cash_history pf,
                      trade_history = sort_key date entries\<rparr>))"

subsection \<open>The run\<close>

text \<open>
  \<^verbatim>\<open>run\<close>, lines 62 to 177. The result is the value returned or the exception raised,
  together with the engine as the call leaves it.
\<close>

definition trading_dates :: "DataFrame \<Rightarrow> timestamp list" where
  "trading_dates all_data =
     (if datetime_index all_data then sort_key chrono (remdups (map idx (rows all_data)))
      else [])"

definition run ::
  "'st BacktestEngine \<Rightarrow> timestamp \<Rightarrow> timestamp \<Rightarrow> string list \<Rightarrow> string
     \<Rightarrow> (error + Results) \<times> 'st BacktestEngine" where
  "run self start_date end_date securities frequency =
     (case strategy self of
        None \<Rightarrow> (Inl NoStrategy, self)
      | Some strat \<Rightarrow>
          let all_data = data_provider self securities start_date end_date frequency in
          if df_empty all_data then (Inl NoData, self)
          else
            let self1 = self\<lparr>strategy := Some (strat\<lparr>context_securities := securities\<rparr>)\<rparr>;
                dates = trading_dates all_data;
                self2 = process_dates all_data securities dates self1
            in
            case generate_results self2 of
              Inl e \<Rightarrow> (Inl e, self2)
            | Inr res \<Rightarrow> (Inr res, self2\<lparr>results := Some res\<rparr>))"

subsection \<open>Orders that are settled stay as they are\<close>

text \<open>
  The relation between the backlog before and after a step of the engine: the backlog
  only grows, and an order that was filled or rejected is the same order afterwards.
\<close>

definition settled_kept :: "OrderManager \<Rightarrow> OrderManager \<Rightarrow> bool" where
  "settled_kept om om' \<longleftrightarrow>
     length (orders om) \<le> length (orders om') \<and>
     (\<forall>j < length (orders om).
        status (orders om ! j) \<noteq> PENDING \<longrightarrow> orders om' ! j = orders om ! j)"

subsection \<open>A scenario: one security, flat at 100\<close>

definition jan :: "nat \<Rightarrow> timestamp" where
  "jan n = \<lparr>year = 2024, month = 1, day = n, hour = 0, minute = 0, second = 0, nanosecond = 0\<rparr>"

definition flat_row :: "timestamp \<Rightarrow> row" where
  "flat_row t = \<lparr>idx = t, row_security = ''A'', close = Some 100\<rparr>"

definition ohlcv :: "string list" where
  "ohlcv = [''open'', ''close'', ''high'', ''low'', ''volume'']"

definition flat_prices :: DataFrame where
  "flat_prices =
     \<lparr>columns = ohlcv, datetime_index = True,
      rows = map (\<lambda>n. flat_row (jan n)) [2, 3, 4, 5, 8]\<rparr>"

definition flat_day :: daily_data where
  "flat_day = Series ohlcv (flat_row (jan 2))"

definition held_A :: "real \<Rightarrow> (string \<times> Position) list" where
  "held_A n =
     [(''A'', \<lparr>Position.security = ''A'', amount = n, avg_cost = 100, last_price = 100\<rparr>)]"

text \<open>
  An engine with commission rate 0.0003 and slippage 0.001, as \<^verbatim>\<open>__init__\<close> builds it,
  with the given cash, holdings and backlog.
\<close>

definition scenario_engine ::
  "real \<Rightarrow> (string \<times> Position) list \<Rightarrow> Order list \<Rightarrow> unit BacktestEngine" where
  "scenario_engine cash0 held backlog =
     \<lparr>data_provider = (\<lambda>securities start_date end_date frequency. flat_prices),
      portfolio = (new_portfolio cash0)\<lparr>positions := held\<rparr>,
      order_manager = \<lparr>commission_rate = 0.0003, slippage = 0.001, orders = backlog\<rparr>,
      strategy = None,
      results = None\<rparr>"

definition filled_order :: Order where
  "filled_order =
     \<lparr>Order.security = ''A'', amount = 10, status = FILLED, fill_price = Some 100.1,
      fill_amount = Some 10, fill_time = Some (jan 1)\<rparr>"

definition two_securities_day :: daily_data where
  "two_securities_day =
     Frame (''security'' # ohlcv)
       [\<lparr>idx = jan 2, row_security = ''A'', close = Some 100\<rparr>,
        \<lparr>idx = jan 2, row_security = ''B'', close = None\<rparr>]"

text \<open>
  The data of a day hold no price for a security: there is no \<^verbatim>\<open>close\<close> column, or no
  row of the security has a closing price. In data without a \<^verbatim>\<open>security\<close> column, which
  are the rows of one security that the data do not name, every row counts as a row of
  the security asked for.
\<close>

definition no_price_in_rows :: "daily_data \<Rightarrow> string \<Rightarrow> bool" where
  "no_price_in_rows daily sec \<longleftrightarrow>
     (case daily of
        Series labels r \<Rightarrow> ''close'' \<notin> set labels \<or> close r = None
      | Frame cols rs \<Rightarrow>
          ''close'' \<notin> set cols \<or>
          (\<forall>r \<in> set rs. (''security'' \<in> set cols \<longrightarrow> row_security r = sec) \<longrightarrow> close r = None))"

subsection \<open>Invariants of the portfolio and of the backlog\<close>

text \<open>
  \<^verbatim>\<open>Portfolio.record\<close> appends to the histories together, so the history of the dates and
  that of the total values have the same length; \<^verbatim>\<open>_generate_results\<close> relies on it.
\<close>

definition histories_parallel :: "Portfolio \<Rightarrow> bool" where
  "histories_parallel pf \<longleftrightarrow> length (total_value_history pf) = length (date_history pf)"

text \<open>A filled order carries its fill: price, amount and time.\<close>

definition fills_recorded :: "OrderManager \<Rightarrow> bool" where
  "fills_recorded om \<longleftrightarrow>
     (\<forall>order \<in> set (orders om).
        status order = FILLED \<longrightarrow>
        fill_price order \<noteq> None \<and> fill_amount order \<noteq> None \<and> fill_time order \<noteq> None)"

definition engine_ok :: "'st BacktestEngine \<Rightarrow> bool" where
  "engine_ok self \<longleftrightarrow>
     histories_parallel (portfolio self) \<and> fills_recorded (order_manager self)"

subsection \<open>A strategy for the scenario\<close>

text \<open>
  The strategy buys 1,000 shares of A on 2 January and raises an exception before the
  trading of 3 January.
\<close>

definition quiet :: "unit hook_result" where
  "quiet = \<lparr>new_state = (), submitted = [], raised = False\<rparr>"

definition buy_once :: "unit BaseStrategy" where
  "buy_once =
     \<lparr>state = (),
      context_securities = [],
      initialize = (\<lambda>pf om st. quiet),
      before_trading_start = (\<lambda>d pf om st. quiet\<lparr>raised := (d = jan 3)\<rparr>),
      handle_data = (\<lambda>daily d pf om st.
         quiet\<lparr>submitted := (if d = jan 2 then [(''A'', 1000)] else [])\<rparr>),
      after_trading_end = (\<lambda>d pf om st. quiet)\<rparr>"

definition buy_once_engine :: "unit BacktestEngine" where
  "buy_once_engine = snd (set_strategy (scenario_engine 1000000 [] []) buy_once)"

text \<open>
  A second scenario: the closing price of A is 1 on 2 January and 1,000 on 3 January. The
  strategy buys 900 shares on 2 January and holds them; none of its callbacks raises. The
  engine is built by \<^verbatim>\<open>__init__\<close> with a cash of 1,000 and gets the strategy by
  \<^verbatim>\<open>set_strategy\<close>.
\<close>

definition rally_prices :: DataFrame where
  "rally_prices =
     \<lparr>columns = ohlcv, datetime_index = True,
      rows = [\<lparr>idx = jan 2, row_security = ''A'', close = Some 1\<rparr>,
              \<lparr>idx = jan 3, row_security = ''A'', close = Some 1000\<rparr>]\<rparr>"

definition buy_and_hold :: "unit BaseStrategy" where
  "buy_and_hold =
     \<lparr>state = (),
      context_securities = [],
      initialize = (\<lambda>pf om st. quiet),
      before_trading_start = (\<lambda>d pf om st. quiet),
      handle_data = (\<lambda>daily d pf om st.
         quiet\<lparr>submitted := (if d = jan 2 then [(''A'', 900)] else [])\<rparr>),
      after_trading_end = (\<lambda>d pf om st. quiet)\<rparr>"

definition rally_engine :: "unit BacktestEngine" where
  "rally_engine =
     snd (set_strategy
            (init_engine (\<lambda>securities start_date end_date frequency. rally_prices)
               1000 0.0003 0.001)
            buy_and_hold)"

text \<open>
  A third scenario: the flat prices under an index that is not a \<^verbatim>\<open>DatetimeIndex\<close>, for
  a new engine with the strategy of the first scenario.
\<close>

definition undated_engine :: "unit BacktestEngine" where
  "undated_engine =
     snd (set_strategy
            (init_engine (\<lambda>securities start_date end_date frequency.
                            flat_prices\<lparr>datetime_index := False\<rparr>)
               1000000 0.0003 0.001)
            buy_once)"

text \<open>The engine of the scenario after the buy, with snapshots at the given dates.\<close>

definition bought :: "timestamp list \<Rightarrow> unit BacktestEngine" where
  "bought ds =
     \<lparr>data_provider = (\<lambda>securities start_date end_date frequency. flat_prices),
      portfolio =
        \<lparr>initial_cash = 1000000, cash = 899869.97,
         positions = [(''A'', \<lparr>Position.security = ''A'', amount = 1000, avg_cost = 100.1,
                               last_price = 100\<rparr>)],
         date_history = ds,
         total_value_history = map (\<lambda>d. 999869.97) ds,
         cash_history = map (\<lambda>d. 899869.97) ds\<rparr>,
      order_manager =
        \<lparr>commission_rate = 0.0003, slippage = 0.001,
         orders = [\<lparr>Order.security = ''A'', amount = 1000, status = FILLED,
                    fill_price = Some 100.1, fill_amount = Some 1000,
                    fill_time = Some (jan 2)\<rparr>]\<rparr>,
      strategy = Some (buy_once\<lparr>context_securities := [''A'']\<rparr>),
      results = None\<rparr>"

subsection \<open>Notions for the trade history\<close>









subsection \<open>The variance of a sample\<close>

definition sample_variance :: "real list \<Rightarrow> real" where
  "sample_variance as =
     sum_list (map (\<lambda>a. (sum_list as / real (length as) - a) * (sum_list as / real (length as) - a)) as)
       / real (length as - 1)"

section \<open>Properties of order settlement\<close>

subsection \<open>The settlement of one order\<close>

lemma cash_add_position: "cash (add_position pf sec amt pr) = cash pf"
  by (simp add: add_position_def split: option.splits)

lemma cash_remove_position: "cash (remove_position pf sec amt pr) = cash pf"
  by (simp add: remove_position_def split: option.splits)

lemma settle_order_length:
  "length (orders (order_manager (settle_order d daily i self)))
     = length (orders (order_manager self))"
  by (simp add: settle_order_def Let_def process_order_def
      split: option.splits prod.splits if_splits bool.splits)

lemma settle_order_other:
  "j \<noteq> i \<Longrightarrow>
   orders (order_manager (settle_order d daily i self)) ! j = orders (order_manager self) ! j"
  by (simp add: settle_order_def Let_def process_order_def
      split: option.splits prod.splits if_splits bool.splits)

lemma settle_order_no_price:
  "current_price daily (Order.security (orders (order_manager self) ! i)) = None \<Longrightarrow>
   settle_order d daily i self = self"
  by (simp add: settle_order_def Let_def)

lemma settle_order_buy_cash:
  assumes "0 < Order.amount (orders (order_manager self) ! i)"
    and "0 \<le> cash (portfolio self)"
  shows "0 \<le> cash (portfolio (settle_order d daily i self))"
  using assms
  by (simp add: settle_order_def Let_def process_order_def get_commission_def cash_add_position
      split: option.splits)

lemma settle_order_buy_insufficient:
  assumes "i < length (orders (order_manager self))"
    and "0 < Order.amount (orders (order_manager self) ! i)"
    and "fill_amount (orders (order_manager (settle_order d daily i self)) ! i) = Some fa"
    and "fill_price (orders (order_manager (settle_order d daily i self)) ! i) = Some fp"
    and "get_commission (order_manager self)
           (orders (order_manager (settle_order d daily i self)) ! i) = Some c"
    and "cash (portfolio self) < fa * fp + c"
  shows "portfolio (settle_order d daily i self) = portfolio self"
  using assms
  by (simp add: settle_order_def Let_def process_order_def get_commission_def
      split: option.splits if_splits)

lemma settle_order_sell_insufficient:
  assumes "\<not> 0 < Order.amount (orders (order_manager self) ! i)"
    and "case get_position (portfolio self) (Order.security (orders (order_manager self) ! i)) of
           None \<Rightarrow> True
         | Some position \<Rightarrow>
             Position.amount position < \<bar>Order.amount (orders (order_manager self) ! i)\<bar>"
  shows "portfolio (settle_order d daily i self) = portfolio self"
  using assms
  by (simp add: settle_order_def Let_def process_order_def get_commission_def
      split: option.splits if_splits)

subsection \<open>The loop over the pending orders\<close>

lemma pending_orders_set:
  "set (pending_orders om) = {i. i < length (orders om) \<and> status (orders om ! i) = PENDING}"
  by (auto simp: pending_orders_def)

lemma pending_orders_distinct: "distinct (pending_orders om)"
  by (simp add: pending_orders_def)

lemma pending_one:
  "pending_orders \<lparr>commission_rate = c, slippage = s, orders = [new_order sec a]\<rparr> = [0]"
  by (simp add: pending_orders_def new_order_def)

lemma fold_settle_length:
  "length (orders (order_manager (fold (settle_order d daily) js self)))
     = length (orders (order_manager self))"
  by (induction js arbitrary: self) (simp_all add: settle_order_length)

lemma fold_settle_other:
  "j \<notin> set js \<Longrightarrow>
   orders (order_manager (fold (settle_order d daily) js self)) ! j
     = orders (order_manager self) ! j"
  by (induction js arbitrary: self) (simp_all add: settle_order_other)

lemma fold_settle_unpriced:
  "current_price daily (Order.security (orders (order_manager self) ! i)) = None \<Longrightarrow>
   orders (order_manager (fold (settle_order d daily) js self)) ! i
     = orders (order_manager self) ! i"
proof (induction js arbitrary: self)
  case Nil
  then show ?case by simp
next
  case (Cons j js)
  have keep: "orders (order_manager (settle_order d daily j self)) ! i
                = orders (order_manager self) ! i"
  proof (cases "j = i")
    case True
    with Cons.prems show ?thesis by (simp add: settle_order_no_price)
  next
    case False
    then show ?thesis by (simp add: settle_order_other)
  qed
  with Cons.prems Cons.IH [of "settle_order d daily j self"] show ?case by simp
qed

lemma fold_settle_buys_cash:
  assumes "distinct js"
    and "\<forall>j\<in>set js. 0 < Order.amount (orders (order_manager self) ! j)"
    and "0 \<le> cash (portfolio self)"
  shows "0 \<le> cash (portfolio (fold (settle_order d daily) js self))"
  using assms
proof (induction js arbitrary: self)
  case Nil
  then show ?case by simp
next
  case (Cons j js)
  let ?s = "settle_order d daily j self"
  have "0 \<le> cash (portfolio ?s)"
    using Cons.prems by (simp add: settle_order_buy_cash)
  moreover have "\<forall>k\<in>set js. 0 < Order.amount (orders (order_manager ?s) ! k)"
  proof
    fix k assume k: "k \<in> set js"
    with Cons.prems have "k \<noteq> j" by auto
    then have "orders (order_manager ?s) ! k = orders (order_manager self) ! k"
      by (rule settle_order_other)
    with k Cons.prems show "0 < Order.amount (orders (order_manager ?s) ! k)" by simp
  qed
  moreover have "distinct js" using Cons.prems by simp
  ultimately show ?case using Cons.IH [of ?s] by simp
qed

lemma process_orders_length:
  "length (orders (order_manager (process_orders d daily self)))
     = length (orders (order_manager self))"
  by (simp add: process_orders_def fold_settle_length)

lemma process_orders_settled:
  assumes "j < length (orders (order_manager self))"
    and "status (orders (order_manager self) ! j) \<noteq> PENDING"
  shows "orders (order_manager (process_orders d daily self)) ! j
           = orders (order_manager self) ! j"
proof -
  from assms have "j \<notin> set (pending_orders (order_manager self))"
    by (simp add: pending_orders_set)
  then show ?thesis
    unfolding process_orders_def by (rule fold_settle_other)
qed

text \<open>
  With a commission rate and a slippage of at most one and prices that are not negative,
  a sale brings in at least its commission, so no settlement takes the cash below zero.
\<close>

lemma settle_order_rates:
  "commission_rate (order_manager (settle_order d daily i self))
     = commission_rate (order_manager self)
   \<and> slippage (order_manager (settle_order d daily i self)) = slippage (order_manager self)"
  by (simp add: settle_order_def Let_def process_order_def
      split: option.splits prod.splits if_splits bool.splits)

lemma sell_revenue_nonneg:
  assumes "0 \<le> p" and "s \<le> 1" and "c \<le> 1"
  shows "0 \<le> \<bar>a\<bar> * (p * (1 - s)) - \<bar>a * (p * (1 - s))\<bar> * (c::real)"
proof -
  let ?fp = "p * (1 - s)"
  from assms have fp: "0 \<le> ?fp" by simp
  then have "\<bar>?fp\<bar> = ?fp" by (rule abs_of_nonneg)
  then have g: "\<bar>a * ?fp\<bar> = \<bar>a\<bar> * ?fp" by (simp only: abs_mult)
  have "0 \<le> \<bar>a\<bar> * ?fp" using fp by simp
  then have "\<bar>a\<bar> * ?fp * c \<le> \<bar>a\<bar> * ?fp" using assms(3) by (rule mult_left_le [rotated])
  then show ?thesis by (simp only: g)
qed

lemma settle_order_cash_nonneg:
  assumes "0 \<le> cash (portfolio self)"
    and "commission_rate (order_manager self) \<le> 1"
    and "slippage (order_manager self) \<le> 1"
    and "\<forall>sec p. current_price daily sec = Some p \<longrightarrow> 0 \<le> p"
  shows "0 \<le> cash (portfolio (settle_order d daily i self))"
proof (cases "0 < Order.amount (orders (order_manager self) ! i)")
  case True
  then show ?thesis using assms(1) by (rule settle_order_buy_cash)
next
  case False
  show ?thesis
  proof (cases "current_price daily (Order.security (orders (order_manager self) ! i))")
    case None
    with assms(1) show ?thesis by (simp add: settle_order_no_price)
  next
    case (Some p)
    with assms(4) have p: "0 \<le> p" by blast
    let ?a = "Order.amount (orders (order_manager self) ! i)"
    let ?fp = "p * (1 - slippage (order_manager self))"
    from False have "\<bar>?a\<bar> = - ?a" by simp
    with sell_revenue_nonneg [OF p assms(3) assms(2), of ?a]
    have r: "0 \<le> - (?a * ?fp) - \<bar>?a * ?fp\<bar> * commission_rate (order_manager self)"
      by simp
    show ?thesis
      using assms(1) False Some r
      by (simp add: settle_order_def Let_def process_order_def get_commission_def
          cash_remove_position split: option.splits)
  qed
qed

lemma process_orders_cash_nonneg:
  assumes "0 \<le> cash (portfolio self)"
    and "commission_rate (order_manager self) \<le> 1"
    and "slippage (order_manager self) \<le> 1"
    and "\<forall>sec p. current_price daily sec = Some p \<longrightarrow> 0 \<le> p"
  shows "0 \<le> cash (portfolio (process_orders d daily self))"
proof -
  have "0 \<le> cash (portfolio (fold (settle_order d daily) js self))"
    if "0 \<le> cash (portfolio self)" "commission_rate (order_manager self) \<le> 1"
      "slippage (order_manager self) \<le> 1" for js and self :: "'a BacktestEngine"
    using that
  proof (induction js arbitrary: self)
    case Nil
    then show ?case by simp
  next
    case (Cons j js)
    from Cons.prems assms(4) have "0 \<le> cash (portfolio (settle_order d daily j self))"
      by (simp add: settle_order_cash_nonneg)
    with Cons.IH [of "settle_order d daily j self"] Cons.prems show ?case
      by (simp add: settle_order_rates)
  qed
  with assms show ?thesis by (simp add: process_orders_def)
qed

text \<open>
  C1: a pending buy order whose cost, fill amount times fill price plus commission, is
  more than the cash leaves the portfolio as it was; the settlement of a buy order never
  takes the cash below zero; and neither does the settlement step when the pending orders
  are buys.
\<close>

theorem buy_settlement_keeps_cash_nonnegative:
  fixes self :: "'st BacktestEngine"
  shows "(\<forall>i fa fp c.
            i < length (orders (order_manager self)) \<and>
            status (orders (order_manager self) ! i) = PENDING \<and>
            0 < Order.amount (orders (order_manager self) ! i) \<and>
            fill_amount (orders (order_manager (settle_order d daily i self)) ! i) = Some fa \<and>
            fill_price (orders (order_manager (settle_order d daily i self)) ! i) = Some fp \<and>
            get_commission (order_manager self)
              (orders (order_manager (settle_order d daily i self)) ! i) = Some c \<and>
            cash (portfolio self) < fa * fp + c
            \<longrightarrow> portfolio (settle_order d daily i self) = portfolio self)
       \<and> (\<forall>i. 0 < Order.amount (orders (order_manager self) ! i) \<and> 0 \<le> cash (portfolio self)
            \<longrightarrow> 0 \<le> cash (portfolio (settle_order d daily i self)))
       \<and> ((\<forall>i < length (orders (order_manager self)).
              status (orders (order_manager self) ! i) = PENDING
              \<longrightarrow> 0 < Order.amount (orders (order_manager self) ! i)) \<and>
            0 \<le> cash (portfolio self)
            \<longrightarrow> 0 \<le> cash (portfolio (process_orders d daily self)))"
proof (intro conjI allI impI)
  fix i fa fp c
  assume "i < length (orders (order_manager self)) \<and>
            status (orders (order_manager self) ! i) = PENDING \<and>
            0 < Order.amount (orders (order_manager self) ! i) \<and>
            fill_amount (orders (order_manager (settle_order d daily i self)) ! i) = Some fa \<and>
            fill_price (orders (order_manager (settle_order d daily i self)) ! i) = Some fp \<and>
            get_commission (order_manager self)
              (orders (order_manager (settle_order d daily i self)) ! i) = Some c \<and>
            cash (portfolio self) < fa * fp + c"
  then show "portfolio (settle_order d daily i self) = portfolio self"
    using settle_order_buy_insufficient [of i self d daily fa fp c] by blast
next
  fix i
  assume "0 < Order.amount (orders (order_manager self) ! i) \<and> 0 \<le> cash (portfolio self)"
  then show "0 \<le> cash (portfolio (settle_order d daily i self))"
    by (simp add: settle_order_buy_cash)
next
  assume a: "(\<forall>i < length (orders (order_manager self)).
              status (orders (order_manager self) ! i) = PENDING
              \<longrightarrow> 0 < Order.amount (orders (order_manager self) ! i)) \<and>
            0 \<le> cash (portfolio self)"
  have "\<forall>j\<in>set (pending_orders (order_manager self)).
          0 < Order.amount (orders (order_manager self) ! j)"
    using a by (simp add: pending_orders_set)
  then show "0 \<le> cash (portfolio (process_orders d daily self))"
    unfolding process_orders_def
    using a fold_settle_buys_cash [OF pending_orders_distinct] by blast
qed

theorem buy_settlement_keeps_cash_nonnegative_witness:
  "cash (portfolio (scenario_engine 50000 [] [new_order ''A'' 1000])) < 1000 * 100.1 + 30.03
   \<and> portfolio (settle_order (jan 2) flat_day 0 (scenario_engine 50000 [] [new_order ''A'' 1000]))
       = portfolio (scenario_engine 50000 [] [new_order ''A'' 1000])
   \<and> 0 \<le> cash (portfolio (settle_order (jan 2) flat_day 0
                             (scenario_engine 1000000 [] [new_order ''A'' 1000])))
   \<and> 0 \<le> cash (portfolio (process_orders (jan 2) flat_day
                             (scenario_engine 1000000 [] [new_order ''A'' 1000])))"
proof -
  let ?e = "scenario_engine 50000 [] [new_order ''A'' 1000]"
  let ?r = "scenario_engine 1000000 [] [new_order ''A'' 1000]"
  note t = buy_settlement_keeps_cash_nonnegative
  have a: "0 < length (orders (order_manager ?e)) \<and>
        status (orders (order_manager ?e) ! 0) = PENDING \<and>
        0 < Order.amount (orders (order_manager ?e) ! 0) \<and>
        fill_amount (orders (order_manager (settle_order (jan 2) flat_day 0 ?e)) ! 0)
          = Some 1000 \<and>
        fill_price (orders (order_manager (settle_order (jan 2) flat_day 0 ?e)) ! 0)
          = Some 100.1 \<and>
        get_commission (order_manager ?e)
          (orders (order_manager (settle_order (jan 2) flat_day 0 ?e)) ! 0) = Some 30.03 \<and>
        cash (portfolio ?e) < 1000 * 100.1 + 30.03"
    by (simp add: scenario_engine_def new_order_def new_portfolio_def settle_order_def
        flat_day_def flat_row_def ohlcv_def process_order_def get_commission_def Let_def)
  have b: "(\<forall>i < length (orders (order_manager ?r)).
              status (orders (order_manager ?r) ! i) = PENDING
              \<longrightarrow> 0 < Order.amount (orders (order_manager ?r) ! i)) \<and>
            0 \<le> cash (portfolio ?r)"
    by (simp add: scenario_engine_def new_order_def new_portfolio_def)
  have c: "0 < Order.amount (orders (order_manager ?r) ! 0) \<and> 0 \<le> cash (portfolio ?r)"
    by (simp add: scenario_engine_def new_order_def new_portfolio_def)
  from a t [of ?e "jan 2" flat_day]
  have "portfolio (settle_order (jan 2) flat_day 0 ?e) = portfolio ?e" by blast
  moreover from c t [of ?r "jan 2" flat_day]
  have "0 \<le> cash (portfolio (settle_order (jan 2) flat_day 0 ?r))" by blast
  moreover from b t [of ?r "jan 2" flat_day]
  have "0 \<le> cash (portfolio (process_orders (jan 2) flat_day ?r))" by blast
  ultimately show ?thesis using a by simp
qed

text \<open>
  C2: a pending sell order for a security of which the portfolio holds no position, or
  less than the amount to sell, leaves the portfolio (its cash and its positions) as it
  was.
\<close>

theorem sell_without_position_leaves_portfolio:
  fixes self :: "'st BacktestEngine"
  assumes "status (orders (order_manager self) ! i) = PENDING"
    and "Order.amount (orders (order_manager self) ! i) \<le> 0"
    and "get_position (portfolio self) (Order.security (orders (order_manager self) ! i)) = None
         \<or> (\<exists>position.
              get_position (portfolio self) (Order.security (orders (order_manager self) ! i))
                = Some position
              \<and> Position.amount position < \<bar>Order.amount (orders (order_manager self) ! i)\<bar>)"
  shows "portfolio (settle_order d daily i self) = portfolio self"
  using assms(2,3) settle_order_sell_insufficient [of self i d daily]
  by (auto split: option.splits)

theorem sell_without_position_leaves_portfolio_witness:
  "portfolio (settle_order (jan 2) flat_day 0
                (scenario_engine 1000 (held_A 500) [new_order ''A'' (- 1000)]))
     = portfolio (scenario_engine 1000 (held_A 500) [new_order ''A'' (- 1000)])
   \<and> status (orders (order_manager
        (settle_order (jan 2) flat_day 0
           (scenario_engine 1000 (held_A 500) [new_order ''A'' (- 1000)]))) ! 0)
       = FILLED
   \<and> portfolio (settle_order (jan 2) flat_day 0 (scenario_engine 1000 [] [new_order ''A'' (- 1000)]))
     = portfolio (scenario_engine 1000 [] [new_order ''A'' (- 1000)])"
proof -
  let ?e = "scenario_engine 1000 (held_A 500) [new_order ''A'' (- 1000)]"
  let ?n = "scenario_engine 1000 [] [new_order ''A'' (- 1000)]"
  have "portfolio (settle_order (jan 2) flat_day 0 ?e) = portfolio ?e"
    by (rule sell_without_position_leaves_portfolio)
       (simp_all add: scenario_engine_def new_order_def new_portfolio_def get_position_def
          held_A_def)
  moreover have "portfolio (settle_order (jan 2) flat_day 0 ?n) = portfolio ?n"
    by (rule sell_without_position_leaves_portfolio)
       (simp_all add: scenario_engine_def new_order_def new_portfolio_def get_position_def)
  moreover have "status (orders (order_manager (settle_order (jan 2) flat_day 0 ?e)) ! 0) = FILLED"
    by (simp add: scenario_engine_def new_order_def new_portfolio_def settle_order_def
        flat_day_def flat_row_def ohlcv_def process_order_def get_commission_def Let_def
        get_position_def held_A_def)
  ultimately show ?thesis by simp
qed

text \<open>
  The lookup of lines 189 to 206 gives no price when the data of the day hold none for
  the security.
\<close>

lemma current_price_none:
  assumes "no_price_in_rows daily sec"
  shows "current_price daily sec = None"
proof (cases daily)
  case (Series labels r)
  with assms show ?thesis by (auto simp: no_price_in_rows_def)
next
  case (Frame cols rs)
  show ?thesis
  proof (cases "''close'' \<in> set cols")
    case False
    with Frame show ?thesis by (simp split: list.splits)
  next
    case True
    with assms Frame have rows:
      "\<forall>r \<in> set rs. (''security'' \<in> set cols \<longrightarrow> row_security r = sec) \<longrightarrow> close r = None"
      by (simp add: no_price_in_rows_def)
    show ?thesis
    proof (cases "''security'' \<in> set cols")
      case True
      show ?thesis
      proof (cases "filter (\<lambda>r. row_security r = sec) rs")
        case Nil
        with Frame True show ?thesis by simp
      next
        case (Cons r rest)
        then have "r \<in> set (filter (\<lambda>r. row_security r = sec) rs)" by simp
        with rows have "close r = None" by simp
        with Cons Frame True show ?thesis by simp
      qed
    next
      case False
      with rows Frame show ?thesis by (cases rs) simp_all
    qed
  qed
qed

text \<open>
  C5, amended: a pending order stays as it is when the data of the day hold no price for
  its security, where in data without a \<^verbatim>\<open>security\<close> column every row counts as a row of
  that security. The body of the loop changes nothing then, and after the settlement step
  the order is the same order, still pending, with its fill price, fill amount and fill
  time untouched.
\<close>

theorem unpriced_order_stays_pending:
  fixes self :: "'st BacktestEngine"
  assumes "status (orders (order_manager self) ! i) = PENDING"
    and "no_price_in_rows daily (Order.security (orders (order_manager self) ! i))"
  shows "settle_order d daily i self = self
       \<and> orders (order_manager (process_orders d daily self)) ! i
           = orders (order_manager self) ! i
       \<and> status (orders (order_manager (process_orders d daily self)) ! i) = PENDING"
proof -
  from assms(2)
  have "current_price daily (Order.security (orders (order_manager self) ! i)) = None"
    by (rule current_price_none)
  with assms(1) show ?thesis
    by (simp add: settle_order_no_price process_orders_def fold_settle_unpriced)
qed

theorem unpriced_order_stays_pending_witness:
  "no_price_in_rows two_securities_day ''B''
   \<and> orders (order_manager (process_orders (jan 2) two_securities_day
        (scenario_engine 1000000 [] [new_order ''A'' 1000, new_order ''B'' 5]))) ! 1
     = new_order ''B'' 5
   \<and> status (orders (order_manager (process_orders (jan 2) two_securities_day
        (scenario_engine 1000000 [] [new_order ''A'' 1000, new_order ''B'' 5]))) ! 1) = PENDING
   \<and> fill_price (new_order ''B'' 5) = None \<and> fill_amount (new_order ''B'' 5) = None"
proof -
  let ?e = "scenario_engine 1000000 [] [new_order ''A'' 1000, new_order ''B'' 5]"
  have p: "no_price_in_rows two_securities_day ''B''"
    by (simp add: no_price_in_rows_def two_securities_day_def)
  have o: "orders (order_manager ?e) ! 1 = new_order ''B'' 5"
    by (simp add: scenario_engine_def)
  have "status (orders (order_manager ?e) ! 1) = PENDING"
    and "no_price_in_rows two_securities_day (Order.security (orders (order_manager ?e) ! 1))"
    by (simp_all add: scenario_engine_def new_order_def two_securities_day_def
        no_price_in_rows_def)
  from unpriced_order_stays_pending [OF this, of "jan 2"] p o show ?thesis
    by (simp add: new_order_def)
qed

text \<open>
  C5 does not hold for data without a \<^verbatim>\<open>security\<close> column. There the lookup is
  the closing price of the row of the day, whatever the security of the order: with the
  row of A as the data of 2 January, a pending order for 10 shares of B, for which the
  data have no row, is filled at the price of A with the slippage, 100.1, and paid for.
\<close>

theorem order_filled_at_price_of_other_row:
  "status (new_order ''B'' 10) = PENDING
   \<and> flat_day = Series ohlcv \<lparr>idx = jan 2, row_security = ''A'', close = Some 100\<rparr>
   \<and> ''security'' \<notin> set ohlcv
   \<and> orders (order_manager (process_orders (jan 2) flat_day
        (scenario_engine 1000000 [] [new_order ''B'' 10]))) ! 0
     = \<lparr>Order.security = ''B'', amount = 10, status = FILLED, fill_price = Some 100.1,
        fill_amount = Some 10, fill_time = Some (jan 2)\<rparr>
   \<and> cash (portfolio (process_orders (jan 2) flat_day
        (scenario_engine 1000000 [] [new_order ''B'' 10]))) = 998998.6997"
proof -
  have s: "process_orders (jan 2) flat_day (scenario_engine 1000000 [] [new_order ''B'' 10])
         = settle_order (jan 2) flat_day 0 (scenario_engine 1000000 [] [new_order ''B'' 10])"
    by (simp add: process_orders_def scenario_engine_def pending_one)
  show ?thesis
    unfolding s
    by (simp add: scenario_engine_def new_order_def new_portfolio_def settle_order_def
        flat_day_def flat_row_def ohlcv_def process_order_def get_commission_def Let_def
        cash_add_position)
qed

subsection \<open>The settlement loop and the fill model\<close>

text \<open>
  With \<open>process_order\<close> as the fill model the loops for any fill model are the loops of
  the engine.
\<close>

lemma settle_order_with_process_order: "settle_order_with process_order = settle_order"
  by (intro ext) (simp add: settle_order_with_def settle_order_def)

lemma process_orders_with_process_order: "process_orders_with process_order = process_orders"
  by (intro ext)
     (simp add: process_orders_with_def process_orders_def settle_order_with_process_order)

lemma process_date_with_process_order: "process_date_with process_order = process_date"
  unfolding process_date_with_def process_date_def process_orders_with_process_order
  by (intro ext refl)

lemma process_dates_with_process_order: "process_dates_with process_order = process_dates"
  by (intro ext)
     (simp add: process_dates_with_def process_dates_def process_date_with_process_order)

text \<open>The loop changes the orders at the places it is given, and no other.\<close>

lemma settle_order_with_length:
  "length (orders (order_manager (settle_order_with po d daily i self)))
     = length (orders (order_manager self))"
  by (simp add: settle_order_with_def Let_def
      split: option.splits prod.splits if_splits bool.splits)

lemma settle_order_with_other:
  "j \<noteq> i \<Longrightarrow>
   orders (order_manager (settle_order_with po d daily i self)) ! j
     = orders (order_manager self) ! j"
  by (simp add: settle_order_with_def Let_def
      split: option.splits prod.splits if_splits bool.splits)

lemma fold_settle_with_length:
  "length (orders (order_manager (fold (settle_order_with po d daily) js self)))
     = length (orders (order_manager self))"
  by (induction js arbitrary: self) (simp_all add: settle_order_with_length)

lemma fold_settle_with_other:
  "j \<notin> set js \<Longrightarrow>
   orders (order_manager (fold (settle_order_with po d daily) js self)) ! j
     = orders (order_manager self) ! j"
  by (induction js arbitrary: self) (simp_all add: settle_order_with_other)

lemma process_orders_with_length:
  "length (orders (order_manager (process_orders_with po d daily self)))
     = length (orders (order_manager self))"
  by (simp add: process_orders_with_def fold_settle_with_length)

lemma process_orders_with_settled:
  assumes "status (orders (order_manager self) ! j) \<noteq> PENDING"
  shows "orders (order_manager (process_orders_with po d daily self)) ! j
           = orders (order_manager self) ! j"
proof -
  from assms have "j \<notin> set (pending_orders (order_manager self))"
    by (simp add: pending_orders_set)
  then show ?thesis
    unfolding process_orders_with_def by (rule fold_settle_with_other)
qed

text \<open>
  The fill model is called with pending orders only: two fill models that agree on the
  pending orders give the same settlement step and the same loop over the dates.
\<close>

lemma settle_order_with_agree:
  assumes "agree_on_pending po po'"
    and "status (orders (order_manager self) ! i) = PENDING"
  shows "settle_order_with po d daily i self = settle_order_with po' d daily i self"
proof -
  from assms have "po (order_manager self) (orders (order_manager self) ! i) p
      = po' (order_manager self) (orders (order_manager self) ! i) p" for p
    by (simp add: agree_on_pending_def)
  then show ?thesis by (simp add: settle_order_with_def Let_def split: option.splits)
qed

lemma fold_settle_with_agree:
  assumes "agree_on_pending po po'"
    and "distinct js"
    and "\<forall>j \<in> set js. status (orders (order_manager self) ! j) = PENDING"
  shows "fold (settle_order_with po d daily) js self
           = fold (settle_order_with po' d daily) js self"
  using assms(2,3)
proof (induction js arbitrary: self)
  case Nil
  show ?case by simp
next
  case (Cons j js)
  let ?s = "settle_order_with po d daily j self"
  from Cons.prems have step: "?s = settle_order_with po' d daily j self"
    by (intro settle_order_with_agree assms(1)) simp
  have "\<forall>k \<in> set js. status (orders (order_manager ?s) ! k) = PENDING"
  proof
    fix k assume k: "k \<in> set js"
    with Cons.prems have "k \<noteq> j" by auto
    then have "orders (order_manager ?s) ! k = orders (order_manager self) ! k"
      by (rule settle_order_with_other)
    with k Cons.prems show "status (orders (order_manager ?s) ! k) = PENDING" by simp
  qed
  moreover from Cons.prems have "distinct js" by simp
  ultimately have "fold (settle_order_with po d daily) js ?s
      = fold (settle_order_with po' d daily) js ?s"
    by (intro Cons.IH)
  with step show ?case by simp
qed

lemma process_orders_with_agree:
  assumes "agree_on_pending po po'"
  shows "process_orders_with po d daily self = process_orders_with po' d daily self"
  unfolding process_orders_with_def
  by (rule fold_settle_with_agree [OF assms pending_orders_distinct])
     (simp add: pending_orders_set)

lemma process_date_with_agree:
  assumes "agree_on_pending po po'"
  shows "process_date_with po all_data securities d self
           = process_date_with po' all_data securities d self"
  unfolding process_date_with_def process_orders_with_agree [OF assms]
  by (rule refl)

lemma process_dates_with_agree:
  assumes "agree_on_pending po po'"
  shows "process_dates_with po all_data securities dates self
           = process_dates_with po' all_data securities dates self"
  by (simp add: process_dates_with_def process_date_with_agree [OF assms])

lemma process_order_fill_always: "agree_on_pending process_order fill_always"
  by (simp add: agree_on_pending_def process_order_def fill_always_def)

subsection \<open>Settled orders over the dates of a run\<close>

lemma settled_kept_refl: "settled_kept om om"
  by (simp add: settled_kept_def)

lemma settled_kept_trans:
  "settled_kept a b \<Longrightarrow> settled_kept b c \<Longrightarrow> settled_kept a c"
  unfolding settled_kept_def by (metis le_trans less_le_trans)

lemma process_orders_with_kept:
  "settled_kept (order_manager self) (order_manager (process_orders_with po d daily self))"
  by (simp add: settled_kept_def process_orders_with_length process_orders_with_settled)

lemma call_hook_kept:
  "settled_kept (order_manager self) (order_manager (snd (call_hook h self)))"
  by (simp add: settled_kept_def call_hook_def Let_def nth_append split: option.splits)

lemma process_date_with_kept:
  "settled_kept (order_manager self)
     (order_manager (snd (process_date_with po all_data securities d self)))"
proof -
  let ?daily = "daily_slice all_data d"
  obtain r1 s1 where h1: "call_hook (\<lambda>strat. before_trading_start strat d) self = (r1, s1)"
    by (cases "call_hook (\<lambda>strat. before_trading_start strat d) self")
  obtain r2 s2 where h2: "call_hook (\<lambda>strat. handle_data strat ?daily d) s1 = (r2, s2)"
    by (cases "call_hook (\<lambda>strat. handle_data strat ?daily d) s1")
  define s3 where "s3 = process_orders_with po d ?daily s2"
  define s4 where
    "s4 = s3\<lparr>portfolio := update_prices (portfolio s3) (day_prices all_data ?daily securities)\<rparr>"
  obtain r3 s5 where h3: "call_hook (\<lambda>strat. after_trading_end strat d) s4 = (r3, s5)"
    by (cases "call_hook (\<lambda>strat. after_trading_end strat d) s4")
  have k1: "settled_kept (order_manager self) (order_manager s1)"
    using call_hook_kept [of self "\<lambda>strat. before_trading_start strat d"] h1 by simp
  have k2: "settled_kept (order_manager s1) (order_manager s2)"
    using call_hook_kept [of s1 "\<lambda>strat. handle_data strat ?daily d"] h2 by simp
  have k3: "settled_kept (order_manager s2) (order_manager s4)"
    using process_orders_with_kept [of s2 po d ?daily] by (simp add: s3_def s4_def)
  have k4: "settled_kept (order_manager s4) (order_manager s5)"
    using call_hook_kept [of s4 "\<lambda>strat. after_trading_end strat d"] h3 by simp
  note k12 = settled_kept_trans [OF k1 k2]
  note k14 = settled_kept_trans [OF k12 k3]
  note k15 = settled_kept_trans [OF k14 k4]
  show ?thesis
    using k1 k12 k15 h1 h2 h3
    by (simp add: process_date_with_def Let_def s3_def s4_def settled_kept_refl
        split: bool.splits)
qed

lemma process_dates_with_kept:
  "settled_kept (order_manager self)
     (order_manager (process_dates_with po all_data securities dates self))"
proof (induction dates arbitrary: self)
  case Nil
  show ?case by (simp add: settled_kept_refl process_dates_with_def)
next
  case (Cons d dates)
  show ?case
    using settled_kept_trans
      [OF process_date_with_kept Cons.IH [unfolded process_dates_with_def]]
    by (simp add: process_dates_with_def)
qed

text \<open>
  C6: the settlement step works on the orders that are pending at line 183, and on no
  other. Whatever the fill model \<open>po\<close> called at line 211 does with the orders it is
  given, an order that is filled or rejected is the same order after the step and after
  any number of trading dates, with the callbacks of the strategy in between; so its
  status never goes back and it is not settled a second time, and the backlog keeps its
  length. What the fill model would do with an order that is not pending has no effect
  on the step or on the loop over the dates. All this holds for the engine, which is the
  case of \<open>process_order\<close> as the fill model.
\<close>

theorem settled_orders_are_final:
  fixes self :: "'st BacktestEngine"
  shows "set (pending_orders (order_manager self))
           = {i. i < length (orders (order_manager self))
                 \<and> status (orders (order_manager self) ! i) = PENDING}
       \<and> (\<forall>j < length (orders (order_manager self)).
            status (orders (order_manager self) ! j) \<noteq> PENDING \<longrightarrow>
            orders (order_manager (process_orders_with po d daily self)) ! j
              = orders (order_manager self) ! j)
       \<and> length (orders (order_manager (process_orders_with po d daily self)))
           = length (orders (order_manager self))
       \<and> (\<forall>j < length (orders (order_manager self)).
            status (orders (order_manager self) ! j) \<noteq> PENDING \<longrightarrow>
            orders (order_manager (process_dates_with po all_data securities dates self)) ! j
              = orders (order_manager self) ! j)
       \<and> (agree_on_pending po po' \<longrightarrow>
            process_orders_with po d daily self = process_orders_with po' d daily self
            \<and> process_dates_with po all_data securities dates self
                = process_dates_with po' all_data securities dates self)
       \<and> process_orders d daily self = process_orders_with process_order d daily self
       \<and> process_dates all_data securities dates self
           = process_dates_with process_order all_data securities dates self
       \<and> (\<forall>j < length (orders (order_manager self)).
            status (orders (order_manager self) ! j) \<noteq> PENDING \<longrightarrow>
            orders (order_manager (process_orders d daily self)) ! j
              = orders (order_manager self) ! j)
       \<and> length (orders (order_manager (process_orders d daily self)))
           = length (orders (order_manager self))
       \<and> (\<forall>j < length (orders (order_manager self)).
            status (orders (order_manager self) ! j) \<noteq> PENDING \<longrightarrow>
            orders (order_manager (process_dates all_data securities dates self)) ! j
              = orders (order_manager self) ! j)"
proof -
  have a: "set (pending_orders (order_manager self))
           = {i. i < length (orders (order_manager self))
                 \<and> status (orders (order_manager self) ! i) = PENDING}"
    by (rule pending_orders_set)
  have b: "\<forall>j < length (orders (order_manager self)).
            status (orders (order_manager self) ! j) \<noteq> PENDING \<longrightarrow>
            orders (order_manager (process_orders_with po d daily self)) ! j
              = orders (order_manager self) ! j" for po
    by (simp add: process_orders_with_settled)
  have c: "length (orders (order_manager (process_orders_with po d daily self)))
           = length (orders (order_manager self))" for po
    by (rule process_orders_with_length)
  have e: "\<forall>j < length (orders (order_manager self)).
            status (orders (order_manager self) ! j) \<noteq> PENDING \<longrightarrow>
            orders (order_manager (process_dates_with po all_data securities dates self)) ! j
              = orders (order_manager self) ! j" for po
    using process_dates_with_kept [of self po all_data securities dates]
    by (simp add: settled_kept_def)
  have f: "agree_on_pending po po' \<longrightarrow>
            process_orders_with po d daily self = process_orders_with po' d daily self
            \<and> process_dates_with po all_data securities dates self
                = process_dates_with po' all_data securities dates self"
    by (simp add: process_orders_with_agree process_dates_with_agree)
  have g: "process_orders d daily self = process_orders_with process_order d daily self"
    by (simp add: process_orders_with_process_order)
  have h: "process_dates all_data securities dates self
           = process_dates_with process_order all_data securities dates self"
    by (simp add: process_dates_with_process_order)
  show ?thesis
    unfolding g h
    by (intro conjI a b c e f refl)
qed

theorem settled_orders_are_final_witness:
  "status (orders (order_manager
      (scenario_engine 1000000 (held_A 10) [filled_order, new_order ''A'' 1000])) ! 0) \<noteq> PENDING
   \<and> orders (order_manager (process_orders_with fill_always (jan 2) flat_day
        (scenario_engine 1000000 (held_A 10) [filled_order, new_order ''A'' 1000]))) ! 0
     = filled_order
   \<and> process_orders_with fill_always (jan 2) flat_day
        (scenario_engine 1000000 (held_A 10) [filled_order, new_order ''A'' 1000])
     = process_orders (jan 2) flat_day
        (scenario_engine 1000000 (held_A 10) [filled_order, new_order ''A'' 1000])
   \<and> orders (order_manager (process_orders (jan 2) flat_day
        (scenario_engine 1000000 (held_A 10) [filled_order, new_order ''A'' 1000]))) ! 0
     = filled_order
   \<and> orders (order_manager (process_dates flat_prices [''A''] [jan 2, jan 3]
        (scenario_engine 1000000 (held_A 10) [filled_order, new_order ''A'' 1000]))) ! 0
     = filled_order
   \<and> status (orders (order_manager (process_orders (jan 2) flat_day
        (scenario_engine 1000000 (held_A 10) [filled_order, new_order ''A'' 1000]))) ! 1)
     = FILLED"
proof -
  let ?e = "scenario_engine 1000000 (held_A 10) [filled_order, new_order ''A'' 1000]"
  have h: "0 < length (orders (order_manager ?e))"
    "status (orders (order_manager ?e) ! 0) \<noteq> PENDING"
    "orders (order_manager ?e) ! 0 = filled_order"
    by (simp_all add: scenario_engine_def filled_order_def)
  have p: "pending_orders (order_manager ?e) = [1]"
    by (simp add: pending_orders_def scenario_engine_def filled_order_def new_order_def)
  have f: "status (orders (order_manager (process_orders (jan 2) flat_day ?e)) ! 1) = FILLED"
    unfolding process_orders_def p
    by (simp add: scenario_engine_def new_order_def new_portfolio_def settle_order_def
        flat_day_def flat_row_def ohlcv_def process_order_def get_commission_def Let_def)
  have a: "agree_on_pending fill_always process_order"
    by (simp add: agree_on_pending_def process_order_def fill_always_def)
  note t = settled_orders_are_final
    [of ?e fill_always "jan 2" flat_day flat_prices "[''A'']" "[jan 2, jan 3]" process_order]
  from t h have "orders (order_manager (process_orders_with fill_always (jan 2) flat_day ?e)) ! 0
      = orders (order_manager ?e) ! 0"
    by blast
  moreover from t a have "process_orders_with fill_always (jan 2) flat_day ?e
      = process_orders (jan 2) flat_day ?e"
    by metis
  moreover from t h have "orders (order_manager (process_orders (jan 2) flat_day ?e)) ! 0
      = orders (order_manager ?e) ! 0"
    by blast
  moreover from t h
  have "orders (order_manager (process_dates flat_prices [''A''] [jan 2, jan 3] ?e)) ! 0
      = orders (order_manager ?e) ! 0"
    by blast
  ultimately show ?thesis using h f by simp
qed

text \<open>
  C7: a pending buy fills at the current price times one plus the slippage, a pending
  sell at the current price times one minus the slippage, in full; the commission is the
  absolute value of fill amount times fill price, times the commission rate. With a cash
  of 1,000,000, a price of 100, a buy of 1,000 shares, a commission rate of 0.0003 and a
  slippage of 0.001 the settlement step fills at 100.1, the commission is 30.03 and the
  cash afterwards is 899,869.97.
\<close>

theorem fill_price_and_commission:
  "(status order = PENDING \<and> 0 < Order.amount order \<longrightarrow>
      process_order om order p = (True, order\<lparr>status := FILLED,
         fill_price := Some (p * (1 + slippage om)), fill_amount := Some (Order.amount order)\<rparr>))
   \<and> (status order = PENDING \<and> Order.amount order < 0 \<longrightarrow>
      process_order om order p = (True, order\<lparr>status := FILLED,
         fill_price := Some (p * (1 - slippage om)), fill_amount := Some (Order.amount order)\<rparr>))
   \<and> (fill_amount order = Some fa \<and> fill_price order = Some fp \<longrightarrow>
      get_commission om order = Some (\<bar>fa * fp\<bar> * commission_rate om))
   \<and> fill_price (orders (order_manager
        (process_orders (jan 2) flat_day (scenario_engine 1000000 [] [new_order ''A'' 1000]))) ! 0)
       = Some 100.1
   \<and> get_commission (order_manager (scenario_engine 1000000 [] [new_order ''A'' 1000]))
        (orders (order_manager
           (process_orders (jan 2) flat_day (scenario_engine 1000000 [] [new_order ''A'' 1000]))) ! 0)
       = Some 30.03
   \<and> cash (portfolio
        (process_orders (jan 2) flat_day (scenario_engine 1000000 [] [new_order ''A'' 1000])))
       = 899869.97"
proof -
  have s: "process_orders (jan 2) flat_day (scenario_engine 1000000 [] [new_order ''A'' 1000])
         = settle_order (jan 2) flat_day 0 (scenario_engine 1000000 [] [new_order ''A'' 1000])"
    by (simp add: process_orders_def scenario_engine_def pending_one)
  show ?thesis
    unfolding s
    by (simp add: scenario_engine_def new_order_def new_portfolio_def settle_order_def
        flat_day_def flat_row_def ohlcv_def process_order_def get_commission_def Let_def
        cash_add_position)
qed

theorem fill_price_and_commission_witness:
  "fill_price (snd (process_order \<lparr>commission_rate = 0.0003, slippage = 0.001, orders = []\<rparr>
                      (new_order ''A'' 1000) 100)) = Some 100.1
   \<and> fill_price (snd (process_order \<lparr>commission_rate = 0.0003, slippage = 0.001, orders = []\<rparr>
                      (new_order ''A'' (- 1000)) 100)) = Some 99.9
   \<and> get_commission \<lparr>commission_rate = 0.0003, slippage = 0.001, orders = []\<rparr> filled_order
       = Some 0.3003"
proof -
  let ?om = "\<lparr>commission_rate = 0.0003, slippage = 0.001, orders = []\<rparr>"
  have b: "status (new_order ''A'' 1000) = PENDING \<and> 0 < Order.amount (new_order ''A'' 1000)"
    and s: "status (new_order ''A'' (- 1000)) = PENDING \<and> Order.amount (new_order ''A'' (- 1000)) < 0"
    and c: "fill_amount filled_order = Some 10 \<and> fill_price filled_order = Some 100.1"
    by (simp_all add: new_order_def filled_order_def)
  from b fill_price_and_commission [of "new_order ''A'' 1000" ?om 100]
  have "fill_price (snd (process_order ?om (new_order ''A'' 1000) 100)) = Some 100.1"
    by simp
  moreover from s fill_price_and_commission [of "new_order ''A'' (- 1000)" ?om 100]
  have "fill_price (snd (process_order ?om (new_order ''A'' (- 1000)) 100)) = Some 99.9"
    by simp
  moreover from c fill_price_and_commission [of filled_order ?om 100 10 "100.1"]
  have "get_commission ?om filled_order = Some 0.3003"
    by simp
  ultimately show ?thesis by simp
qed

subsection \<open>Invariants kept by the engine\<close>




lemma histories_add_position:
  "date_history (add_position pf sec amt pr) = date_history pf \<and>
   total_value_history (add_position pf sec amt pr) = total_value_history pf \<and>
   cash_history (add_position pf sec amt pr) = cash_history pf"
  by (simp add: add_position_def split: option.splits)

lemma histories_remove_position:
  "date_history (remove_position pf sec amt pr) = date_history pf \<and>
   total_value_history (remove_position pf sec amt pr) = total_value_history pf \<and>
   cash_history (remove_position pf sec amt pr) = cash_history pf"
  by (simp add: remove_position_def split: option.splits)

lemma settle_order_histories:
  "date_history (portfolio (settle_order d daily i self)) = date_history (portfolio self) \<and>
   total_value_history (portfolio (settle_order d daily i self)) = total_value_history (portfolio self) \<and>
   cash_history (portfolio (settle_order d daily i self)) = cash_history (portfolio self)"
  by (simp add: settle_order_def Let_def histories_add_position histories_remove_position
      split: option.splits prod.splits bool.splits)

lemma settle_order_strategy:
  "strategy (settle_order d daily i self) = strategy self"
  by (simp add: settle_order_def Let_def split: option.splits prod.splits bool.splits)

lemma process_order_fills:
  assumes "process_order om order p = (b, order')"
    and "status order = FILLED \<longrightarrow>
        fill_price order \<noteq> None \<and> fill_amount order \<noteq> None \<and> fill_time order \<noteq> None"
  shows "(if b then status order' = FILLED \<and> fill_price order' \<noteq> None \<and> fill_amount order' \<noteq> None
          else order' = order)"
  using assms by (auto simp: process_order_def split: if_splits)

lemma fills_recorded_update:
  assumes "fills_recorded om"
    and "status order = FILLED \<longrightarrow>
        fill_price order \<noteq> None \<and> fill_amount order \<noteq> None \<and> fill_time order \<noteq> None"
  shows "fills_recorded (om\<lparr>orders := (orders om)[i := order]\<rparr>)"
  using assms unfolding fills_recorded_def
  by (auto dest!: set_update_subset_insert [THEN subsetD])

lemma settle_order_fills:
  assumes "fills_recorded (order_manager self)"
  shows "fills_recorded (order_manager (settle_order d daily i self))"
proof (cases "length (orders (order_manager self)) \<le> i")
  case True
  with assms show ?thesis by (simp add: settle_order_def)
next
  case False
  let ?om = "order_manager self"
  let ?o = "orders ?om ! i"
  from False have mem: "?o \<in> set (orders ?om)" by simp
  with assms have ok: "status ?o = FILLED \<longrightarrow>
        fill_price ?o \<noteq> None \<and> fill_amount ?o \<noteq> None \<and> fill_time ?o \<noteq> None"
    by (simp add: fills_recorded_def)
  show ?thesis
  proof (cases "current_price daily (Order.security ?o)")
    case None
    with assms show ?thesis by (simp add: settle_order_no_price)
  next
    case (Some p)
    obtain b o1 where po: "process_order ?om ?o p = (b, o1)"
      by (cases "process_order ?om ?o p")
    note pf = process_order_fills [OF po ok]
    define o2 where "o2 = (if fill_time o1 = None then o1\<lparr>fill_time := Some d\<rparr> else o1)"
    have o2ok: "b \<Longrightarrow> status o2 = FILLED \<longrightarrow>
        fill_price o2 \<noteq> None \<and> fill_amount o2 \<noteq> None \<and> fill_time o2 \<noteq> None"
      using pf by (auto simp: o2_def)
    have o1ok: "\<not> b \<Longrightarrow> status o1 = FILLED \<longrightarrow>
        fill_price o1 \<noteq> None \<and> fill_amount o1 \<noteq> None \<and> fill_time o1 \<noteq> None"
      using pf ok by simp
    have "order_manager (settle_order d daily i self)
            = ?om\<lparr>orders := (orders ?om)[i := (if b then o2 else o1)]\<rparr>"
      using False Some po
      by (simp add: settle_order_def Let_def o2_def split: option.splits)
    then show ?thesis
      using fills_recorded_update [OF assms, of "if b then o2 else o1" i] o2ok o1ok
      by (cases b) simp_all
  qed
qed



lemma process_orders_ok:
  "engine_ok self \<Longrightarrow> engine_ok (process_orders d daily self)"
proof -
  have "engine_ok self \<Longrightarrow> engine_ok (fold (settle_order d daily) js self)" for js
  proof (induction js arbitrary: self)
    case Nil
    then show ?case by simp
  next
    case (Cons j js)
    from Cons.prems have "engine_ok (settle_order d daily j self)"
      by (simp add: engine_ok_def histories_parallel_def settle_order_histories settle_order_fills)
    with Cons.IH show ?case by simp
  qed
  then show "engine_ok self \<Longrightarrow> engine_ok (process_orders d daily self)"
    by (simp add: process_orders_def)
qed

lemma process_orders_strategy:
  "strategy (process_orders d daily self) = strategy self"
proof -
  have "strategy (fold (settle_order d daily) js self) = strategy self" for js
    by (induction js arbitrary: self) (simp_all add: settle_order_strategy)
  then show ?thesis by (simp add: process_orders_def)
qed

lemma process_orders_histories:
  "date_history (portfolio (process_orders d daily self)) = date_history (portfolio self)
   \<and> total_value_history (portfolio (process_orders d daily self))
       = total_value_history (portfolio self)
   \<and> cash_history (portfolio (process_orders d daily self)) = cash_history (portfolio self)"
proof -
  have "date_history (portfolio (fold (settle_order d daily) js self)) = date_history (portfolio self)
   \<and> total_value_history (portfolio (fold (settle_order d daily) js self))
       = total_value_history (portfolio self)
   \<and> cash_history (portfolio (fold (settle_order d daily) js self)) = cash_history (portfolio self)"
    for js
    by (induction js arbitrary: self) (simp_all add: settle_order_histories)
  then show ?thesis by (simp add: process_orders_def)
qed

lemma call_hook_ok:
  "engine_ok self \<Longrightarrow> engine_ok (snd (call_hook h self))"
  by (auto simp: engine_ok_def call_hook_def Let_def fills_recorded_def new_order_def
      split: option.splits)

lemma update_prices_histories:
  "histories_parallel (update_prices pf prices) = histories_parallel pf"
  by (simp add: histories_parallel_def update_prices_def)

lemma record_snapshot_histories:
  "histories_parallel pf \<Longrightarrow> histories_parallel (record_snapshot pf d)"
  by (simp add: histories_parallel_def record_snapshot_def)

lemma process_date_ok:
  assumes "engine_ok self"
  shows "engine_ok (snd (process_date all_data securities d self))"
proof -
  let ?daily = "daily_slice all_data d"
  obtain r1 s1 where h1: "call_hook (\<lambda>strat. before_trading_start strat d) self = (r1, s1)"
    by (cases "call_hook (\<lambda>strat. before_trading_start strat d) self")
  obtain r2 s2 where h2: "call_hook (\<lambda>strat. handle_data strat ?daily d) s1 = (r2, s2)"
    by (cases "call_hook (\<lambda>strat. handle_data strat ?daily d) s1")
  define s3 where "s3 = process_orders d ?daily s2"
  define s4 where
    "s4 = s3\<lparr>portfolio := update_prices (portfolio s3) (day_prices all_data ?daily securities)\<rparr>"
  obtain r3 s5 where h3: "call_hook (\<lambda>strat. after_trading_end strat d) s4 = (r3, s5)"
    by (cases "call_hook (\<lambda>strat. after_trading_end strat d) s4")
  have k1: "engine_ok s1"
    using call_hook_ok [OF assms, of "\<lambda>strat. before_trading_start strat d"] h1 by simp
  have k2: "engine_ok s2"
    using call_hook_ok [OF k1, of "\<lambda>strat. handle_data strat ?daily d"] h2 by simp
  have k3: "engine_ok s3"
    using process_orders_ok [OF k2] by (simp add: s3_def)
  have k4: "engine_ok s4"
    using k3 by (simp add: s4_def engine_ok_def update_prices_histories)
  have k5: "engine_ok s5"
    using call_hook_ok [OF k4, of "\<lambda>strat. after_trading_end strat d"] h3 by simp
  have k6: "engine_ok (s5\<lparr>portfolio := record_snapshot (portfolio s5) d\<rparr>)"
    using k5 by (simp add: engine_ok_def record_snapshot_histories)
  show ?thesis
    using assms k1 k2 k5 k6 h1 h2 h3
    by (simp add: process_date_def Let_def s3_def s4_def split: bool.splits)
qed

lemma process_dates_ok:
  "engine_ok self \<Longrightarrow> engine_ok (process_dates all_data securities dates self)"
  unfolding process_dates_def
  by (induction dates arbitrary: self) (simp_all add: process_date_ok)

lemma call_hook_portfolio: "portfolio (snd (call_hook h self)) = portfolio self"
  by (simp add: call_hook_def Let_def split: option.splits)

lemma process_date_caught:
  assumes "fst (process_date all_data securities d self) \<noteq> Recorded"
  shows "date_history (portfolio (snd (process_date all_data securities d self)))
           = date_history (portfolio self)
       \<and> total_value_history (portfolio (snd (process_date all_data securities d self)))
           = total_value_history (portfolio self)
       \<and> cash_history (portfolio (snd (process_date all_data securities d self)))
           = cash_history (portfolio self)"
proof -
  let ?daily = "daily_slice all_data d"
  obtain r1 s1 where h1: "call_hook (\<lambda>strat. before_trading_start strat d) self = (r1, s1)"
    by (cases "call_hook (\<lambda>strat. before_trading_start strat d) self")
  obtain r2 s2 where h2: "call_hook (\<lambda>strat. handle_data strat ?daily d) s1 = (r2, s2)"
    by (cases "call_hook (\<lambda>strat. handle_data strat ?daily d) s1")
  define s3 where "s3 = process_orders d ?daily s2"
  define s4 where
    "s4 = s3\<lparr>portfolio := update_prices (portfolio s3) (day_prices all_data ?daily securities)\<rparr>"
  obtain r3 s5 where h3: "call_hook (\<lambda>strat. after_trading_end strat d) s4 = (r3, s5)"
    by (cases "call_hook (\<lambda>strat. after_trading_end strat d) s4")
  have p1: "portfolio s1 = portfolio self"
    using call_hook_portfolio [of "\<lambda>strat. before_trading_start strat d" self] h1 by simp
  have p2: "portfolio s2 = portfolio s1"
    using call_hook_portfolio [of "\<lambda>strat. handle_data strat ?daily d" s1] h2 by simp
  have p3: "date_history (portfolio s3) = date_history (portfolio s2)
      \<and> total_value_history (portfolio s3) = total_value_history (portfolio s2)
      \<and> cash_history (portfolio s3) = cash_history (portfolio s2)"
    unfolding s3_def by (rule process_orders_histories)
  have p4: "date_history (portfolio s4) = date_history (portfolio s3)
      \<and> total_value_history (portfolio s4) = total_value_history (portfolio s3)
      \<and> cash_history (portfolio s4) = cash_history (portfolio s3)"
    by (simp add: s4_def update_prices_def)
  have p5: "portfolio s5 = portfolio s4"
    using call_hook_portfolio [of "\<lambda>strat. after_trading_end strat d" s4] h3 by simp
  show ?thesis
    using assms p1 p2 p3 p4 p5 h1 h2 h3
    by (simp add: process_date_def Let_def s3_def s4_def split: bool.splits if_splits)
qed

lemma trade_entry_ok:
  assumes "fill_price order \<noteq> None" and "fill_amount order \<noteq> None"
  shows "\<exists>entry. trade_entry om order t = Inr entry"
  using assms by (auto simp: trade_entry_def get_commission_def)

lemma trade_entries_ok:
  assumes "\<forall>order \<in> set os. status order = FILLED \<longrightarrow>
        fill_price order \<noteq> None \<and> fill_amount order \<noteq> None \<and> fill_time order \<noteq> None"
  shows "\<exists>entries. trade_entries om os = Inr entries"
  using assms
proof (induction os)
  case Nil
  then show ?case by simp
next
  case (Cons order rest)
  then obtain entries where r: "trade_entries om rest = Inr entries" by auto
  show ?case
  proof (cases "status order = FILLED")
    case True
    with Cons.prems obtain t where t: "fill_time order = Some t" by auto
    from True Cons.prems obtain entry where "trade_entry om order t = Inr entry"
      using trade_entry_ok [of order om t] by auto
    with True t r show ?thesis by simp
  next
    case False
    with r show ?thesis by simp
  qed
qed

text \<open>
  The annual return raises nothing but \<^verbatim>\<open>OverflowError\<close>. It raises nothing for an
  empty history and for a total return between \<open>-1\<close> and \<open>0\<close>; it raises for one or two
  snapshots and a total return of 511 or more.
\<close>

lemma annualize_cases: "(\<exists>a. annualize tr n = Inr a) \<or> annualize tr n = Inl OverflowError"
  by (simp add: annualize_def Let_def)

lemma annualize_error: "annualize tr n = Inl e \<Longrightarrow> e = OverflowError"
  by (simp add: annualize_def Let_def split: if_splits)

lemma annualize_empty: "annualize tr 0 = Inr (Real_value 0)"
  by (simp add: annualize_def)

lemma float_max_ge_one: "1 \<le> float_max"
proof -
  have "(1::real) \<le> 2 - 1 / 2 ^ 52" by simp
  moreover have "(1::real) \<le> 2 ^ 1023" by (rule one_le_power) simp
  ultimately have "(1::real) * 1 \<le> (2 - 1 / 2 ^ 52) * 2 ^ 1023"
    by (rule mult_mono) simp_all
  then show ?thesis by (simp only: float_max_def mult_1)
qed

lemma float_max_less: "float_max < 2 ^ 1024"
proof -
  have "(2 - 1 / 2 ^ 52) * (2::real) ^ 1023 < 2 * 2 ^ 1023"
    by (rule mult_strict_right_mono) simp_all
  also have "2 * (2::real) ^ 1023 = 2 ^ Suc 1023" by (simp only: power_Suc)
  also have "Suc 1023 = 1024" by simp
  finally show ?thesis by (simp only: float_max_def)
qed

lemma annualize_no_gain:
  assumes "- 1 < tr" and "tr \<le> 0"
  shows "\<exists>a. annualize tr n = Inr a"
proof -
  from assms have "\<bar>1 + tr\<bar> powr (252 / real n) \<le> 1"
    by (intro powr_le1) simp_all
  with float_max_ge_one have "\<not> float_max < \<bar>1 + tr\<bar> powr (252 / real n)" by simp
  then show ?thesis by (simp add: annualize_def Let_def)
qed

lemma annualize_overflow:
  assumes "511 \<le> tr" and "0 < n" and "n \<le> 2"
  shows "annualize tr n = Inl OverflowError"
proof -
  from assms have e: "126 \<le> 252 / real n"
    by (simp add: pos_le_divide_eq)
  from assms have b: "512 \<le> \<bar>1 + tr\<bar>" by simp
  have "(512::real) = 2 ^ 9" by simp
  then have "(512::real) ^ 126 = (2 ^ 9) ^ 126" by (simp only:)
  also have "\<dots> = 2 ^ (9 * 126)" by (simp only: power_mult)
  also have "9 * 126 = (1134::nat)" by simp
  finally have p: "(512::real) ^ 126 = 2 ^ 1134" .
  have "float_max < 2 ^ 1024" by (rule float_max_less)
  also have "(2::real) ^ 1024 \<le> 2 ^ 1134" by (rule power_increasing) simp_all
  also have "(2::real) ^ 1134 = 512 powr 126" by (simp only: p [symmetric] powr_numeral)
  also have "(512::real) powr 126 \<le> \<bar>1 + tr\<bar> powr 126"
    using b by (intro powr_mono2) simp_all
  also have "\<bar>1 + tr\<bar> powr 126 \<le> \<bar>1 + tr\<bar> powr (252 / real n)"
    using b e by (intro powr_mono) simp_all
  finally have "float_max < \<bar>1 + tr\<bar> powr (252 / real n)" .
  with assms show ?thesis by (simp add: annualize_def Let_def)
qed

text \<open>
  With the invariants \<^verbatim>\<open>_generate_results\<close> returns a result whenever the annual
  return does not raise, and raises nothing but \<^verbatim>\<open>OverflowError\<close>.
\<close>

lemma generate_results_ok:
  assumes "engine_ok self"
    and "annualize (total_profit_rate (get_summary (portfolio self)))
           (length (total_value_history (portfolio self))) = Inr a"
  shows "\<exists>res. generate_results self = Inr res \<and>
           history_dates res = date_history (portfolio self) \<and>
           history_total_value res = total_value_history (portfolio self) \<and>
           history_cash res = cash_history (portfolio self)"
proof -
  from assms have "\<forall>order \<in> set (get_filled_orders (order_manager self)).
      status order = FILLED \<longrightarrow>
        fill_price order \<noteq> None \<and> fill_amount order \<noteq> None \<and> fill_time order \<noteq> None"
    by (simp add: engine_ok_def fills_recorded_def get_filled_orders_def)
  from trade_entries_ok [OF this, of "order_manager self"]
  obtain entries where "trade_entries (order_manager self) (get_filled_orders (order_manager self)) = Inr entries"
    by blast
  with assms show ?thesis
    by (simp add: generate_results_def Let_def engine_ok_def histories_parallel_def)
qed

lemma generate_results_cases:
  assumes "engine_ok self"
  shows "(\<exists>res. generate_results self = Inr res \<and>
           history_dates res = date_history (portfolio self) \<and>
           history_total_value res = total_value_history (portfolio self) \<and>
           history_cash res = cash_history (portfolio self))
       \<or> generate_results self = Inl OverflowError"
proof -
  let ?a = "annualize (total_profit_rate (get_summary (portfolio self)))
              (length (total_value_history (portfolio self)))"
  from annualize_cases [of "total_profit_rate (get_summary (portfolio self))"
      "length (total_value_history (portfolio self))"]
  show ?thesis
  proof
    assume "\<exists>a. ?a = Inr a"
    then obtain a where "?a = Inr a" ..
    from generate_results_ok [OF assms this] show ?thesis ..
  next
    assume "?a = Inl OverflowError"
    with assms have "generate_results self = Inl OverflowError"
      by (simp add: generate_results_def Let_def engine_ok_def histories_parallel_def)
    then show ?thesis ..
  qed
qed

lemma generate_results_overflow:
  assumes "length (total_value_history (portfolio self)) = length (date_history (portfolio self))"
    and "annualize (total_profit_rate (get_summary (portfolio self)))
           (length (total_value_history (portfolio self))) = Inl OverflowError"
  shows "generate_results self = Inl OverflowError"
  using assms by (simp add: generate_results_def Let_def)

lemma trade_entries_error:
  "trade_entries om os = Inl e \<Longrightarrow> e = TypeError"
  by (induction os) (auto simp: trade_entry_def split: option.splits sum.splits if_splits)

lemma generate_results_error:
  "generate_results self = Inl e \<Longrightarrow> e = ValueError \<or> e = OverflowError \<or> e = TypeError"
  by (auto simp: generate_results_def Let_def split: if_splits sum.splits
      dest: trade_entries_error annualize_error)

text \<open>
  The invariants hold for an engine as \<^verbatim>\<open>__init__\<close> builds it, and \<^verbatim>\<open>set_strategy\<close>
  and \<^verbatim>\<open>run\<close> keep them.
\<close>

lemma init_engine_ok: "engine_ok (init_engine dp c0 r0 s0)"
  by (simp add: engine_ok_def init_engine_def histories_parallel_def fills_recorded_def
      new_portfolio_def)

lemma set_strategy_ok: "engine_ok self \<Longrightarrow> engine_ok (snd (set_strategy self strat))"
  unfolding set_strategy_def by (rule call_hook_ok) (simp add: engine_ok_def)

lemma run_ok:
  assumes "engine_ok self"
  shows "engine_ok (snd (run self start_date end_date securities frequency))"
proof (cases "strategy self")
  case None
  with assms show ?thesis by (simp add: run_def)
next
  case (Some strat)
  let ?data = "data_provider self securities start_date end_date frequency"
  let ?s1 = "self\<lparr>strategy := Some (strat\<lparr>context_securities := securities\<rparr>)\<rparr>"
  let ?s2 = "process_dates ?data securities (trading_dates ?data) ?s1"
  from assms have "engine_ok ?s1" by (simp add: engine_ok_def)
  then have "engine_ok ?s2" by (rule process_dates_ok)
  then have "engine_ok (?s2\<lparr>results := r\<rparr>)" for r by (simp add: engine_ok_def)
  with \<open>engine_ok ?s2\<close> assms Some show ?thesis
    by (simp add: run_def Let_def split: sum.splits)
qed

subsection \<open>The scenario, evaluated\<close>


lemma jan_inject: "jan a = jan b \<longleftrightarrow> a = b"
  by (simp add: jan_def)

lemma columns_flat: "columns flat_prices = ohlcv"
  by (simp add: flat_prices_def)

lemma trading_dates_flat: "trading_dates flat_prices = [jan 2, jan 3, jan 4, jan 5, jan 8]"
  by (simp add: trading_dates_def flat_prices_def flat_row_def jan_def chrono_def)

lemma daily_slice_flat:
  "n \<in> {2, 3, 4, 5, 8} \<Longrightarrow> daily_slice flat_prices (jan n) = Series ohlcv (flat_row (jan n))"
  by (auto simp: daily_slice_def flat_prices_def flat_row_def jan_def Let_def ohlcv_def)

lemma buy_once_engine_eq:
  "buy_once_engine = (scenario_engine 1000000 [] [])\<lparr>strategy := Some buy_once\<rparr>"
  by (simp add: buy_once_engine_def set_strategy_def call_hook_def Let_def buy_once_def quiet_def
      scenario_engine_def)

lemmas scenario_simps =
  process_date_def daily_slice_flat columns_flat Let_def call_hook_def scenario_engine_def
  buy_once_def quiet_def jan_inject process_orders_def pending_orders_def new_order_def
  settle_order_def flat_row_def process_order_def ohlcv_def get_commission_def
  new_portfolio_def add_position_def get_position_def day_prices_def update_prices_def
  record_snapshot_def total_value_def bought_def

lemma scenario_first_day:
  "process_date flat_prices [''A''] (jan 2)
     (buy_once_engine\<lparr>strategy := Some (buy_once\<lparr>context_securities := [''A'']\<rparr>)\<rparr>)
   = (Recorded, bought [jan 2])"
  by (simp add: buy_once_engine_eq scenario_simps)

lemma scenario_raising_day:
  "process_date flat_prices [''A''] (jan 3) (bought ds) = (Caught, bought ds)"
  by (simp add: scenario_simps)

lemma scenario_later_day:
  "n \<in> {4, 5, 8} \<Longrightarrow>
   process_date flat_prices [''A''] (jan n) (bought ds) = (Recorded, bought (ds @ [jan n]))"
  by (auto simp: scenario_simps)

lemma scenario_dates:
  "process_dates flat_prices [''A''] (trading_dates flat_prices)
     (buy_once_engine\<lparr>strategy := Some (buy_once\<lparr>context_securities := [''A'']\<rparr>)\<rparr>)
   = bought [jan 2, jan 4, jan 5, jan 8]"
  by (simp add: process_dates_def trading_dates_flat scenario_first_day scenario_raising_day
      scenario_later_day)

lemma scenario_results:
  "\<exists>a. generate_results (bought [jan 2, jan 4, jan 5, jan 8]) =
     Inr \<lparr>summary =
            \<lparr>summary_cash = 899869.97, summary_total_value = 999869.97,
             total_profit_rate = - 0.00013003\<rparr>,
          returns = [(jan 2, 999869.97), (jan 4, 999869.97), (jan 5, 999869.97),
                     (jan 8, 999869.97)],
          returns_pct = [Num 0, Num 0, Num 0, Num 0],
          metrics = \<lparr>total_return = - 0.00013003, annual_return = a,
                     sharpe_ratio = Num 0, total_trades = 1\<rparr>,
          history_dates = [jan 2, jan 4, jan 5, jan 8],
          history_total_value = [999869.97, 999869.97, 999869.97, 999869.97],
          history_cash = [899869.97, 899869.97, 899869.97, 899869.97],
          trade_history =
            [\<lparr>date = ''2024-01-02 00:00:00'', security = ''A'', trade_type = Buy,
              amount = 1000, price = 100.1, trade_value = 100100, commission = 30.03,
              net_value = - 100130.03\<rparr>]\<rparr>"
proof -
  have "\<exists>a. annualize (- 0.00013003) (Suc (Suc (Suc (Suc 0)))) = Inr a"
    by (rule annualize_no_gain) simp_all
  then obtain a where a: "annualize (- 0.00013003) (Suc (Suc (Suc (Suc 0)))) = Inr a" ..
  show ?thesis
    apply (rule exI [of _ a])
    using a
    apply (simp add: generate_results_def bought_def Let_def get_summary_def total_value_def
      fillna0_def fsub_def sharpe_def std_def mean_def series_sum_def get_filled_orders_def
      trade_entry_def get_commission_def trade_record_def strftime_def pad2_def pad4_def
      digit_def jan_def)
    done
qed

lemma scenario_run:
  "fst (run buy_once_engine start_date end_date [''A''] frequency)
     = generate_results (bought [jan 2, jan 4, jan 5, jan 8])"
proof -
  have d: "data_provider buy_once_engine [''A''] start_date end_date frequency = flat_prices"
    and s: "strategy buy_once_engine = Some buy_once"
    by (simp_all add: buy_once_engine_eq scenario_engine_def)
  have n: "\<not> df_empty flat_prices"
    by (simp add: df_empty_def flat_prices_def ohlcv_def)
  show ?thesis
    by (simp add: run_def d s n Let_def scenario_dates split: sum.splits)
qed

section \<open>Properties of the run\<close>

text \<open>
  C3: \<^verbatim>\<open>run\<close> raises one of its two configuration errors exactly when no strategy is
  attached or the data provider returns an empty frame. In both cases the engine is left
  as it was: no step of a date was executed and no snapshot recorded. An engine has no
  strategy after \<^verbatim>\<open>__init__\<close> and has one after \<^verbatim>\<open>set_strategy\<close>.
\<close>

theorem run_fails_early_iff:
  fixes self :: "'st BacktestEngine"
  shows "(fst (run self start_date end_date securities frequency) \<in> {Inl NoStrategy, Inl NoData}
          \<longleftrightarrow> strategy self = None
              \<or> df_empty (data_provider self securities start_date end_date frequency))
       \<and> (strategy self = None
            \<longrightarrow> run self start_date end_date securities frequency = (Inl NoStrategy, self))
       \<and> (strategy self \<noteq> None
            \<and> df_empty (data_provider self securities start_date end_date frequency)
            \<longrightarrow> run self start_date end_date securities frequency = (Inl NoData, self))
       \<and> strategy (init_engine dp c0 r0 s0 :: 'st BacktestEngine) = None
       \<and> strategy (snd (set_strategy self strat)) \<noteq> None"
proof -
  have a: "strategy self = None
            \<longrightarrow> run self start_date end_date securities frequency = (Inl NoStrategy, self)"
    by (simp add: run_def)
  have b: "strategy self \<noteq> None
            \<and> df_empty (data_provider self securities start_date end_date frequency)
            \<longrightarrow> run self start_date end_date securities frequency = (Inl NoData, self)"
    by (auto simp: run_def)
  have c: "strategy self \<noteq> None
            \<and> \<not> df_empty (data_provider self securities start_date end_date frequency)
            \<longrightarrow> fst (run self start_date end_date securities frequency) \<notin> {Inl NoStrategy, Inl NoData}"
    by (auto simp: run_def Let_def split: sum.splits dest: generate_results_error)
  have d: "strategy (init_engine dp c0 r0 s0 :: 'st BacktestEngine) = None"
    by (simp add: init_engine_def)
  have e: "strategy (snd (set_strategy self strat)) \<noteq> None"
    by (simp add: set_strategy_def call_hook_def Let_def)
  from a b c d e show ?thesis by (cases "strategy self = None") auto
qed

theorem run_fails_early_iff_witness:
  "run (scenario_engine 1000000 [] []) (jan 1) (jan 9) [''A''] ''daily''
     = (Inl NoStrategy, scenario_engine 1000000 [] [])
   \<and> run (buy_once_engine\<lparr>data_provider := (\<lambda>securities start_date end_date frequency.
             \<lparr>columns = ohlcv, datetime_index = True, rows = []\<rparr>)\<rparr>)
         (jan 1) (jan 9) [''A''] ''daily''
     = (Inl NoData,
        buy_once_engine\<lparr>data_provider := (\<lambda>securities start_date end_date frequency.
             \<lparr>columns = ohlcv, datetime_index = True, rows = []\<rparr>)\<rparr>)
   \<and> fst (run buy_once_engine (jan 1) (jan 9) [''A''] ''daily'') \<notin> {Inl NoStrategy, Inl NoData}"
proof -
  let ?none = "scenario_engine 1000000 [] []"
  let ?empty = "buy_once_engine\<lparr>data_provider := (\<lambda>securities start_date end_date frequency.
             \<lparr>columns = ohlcv, datetime_index = True, rows = []\<rparr>)\<rparr>"
  have n: "strategy ?none = None"
    by (simp add: scenario_engine_def)
  have e: "strategy ?empty \<noteq> None \<and> df_empty (data_provider ?empty [''A''] (jan 1) (jan 9) ''daily'')"
    by (simp add: buy_once_engine_eq df_empty_def)
  have b: "\<not> (strategy buy_once_engine = None
              \<or> df_empty (data_provider buy_once_engine [''A''] (jan 1) (jan 9) ''daily''))"
    by (simp add: buy_once_engine_eq scenario_engine_def df_empty_def flat_prices_def ohlcv_def)
  from n run_fails_early_iff [of ?none "jan 1" "jan 9" "[''A'']" "''daily''"]
  have "run ?none (jan 1) (jan 9) [''A''] ''daily'' = (Inl NoStrategy, ?none)" by blast
  moreover from e run_fails_early_iff [of ?empty "jan 1" "jan 9" "[''A'']" "''daily''"]
  have "run ?empty (jan 1) (jan 9) [''A''] ''daily'' = (Inl NoData, ?empty)" by blast
  moreover from b run_fails_early_iff [of buy_once_engine "jan 1" "jan 9" "[''A'']" "''daily''"]
  have "fst (run buy_once_engine (jan 1) (jan 9) [''A''] ''daily'') \<notin> {Inl NoStrategy, Inl NoData}"
    by blast
  ultimately show ?thesis by simp
qed

subsection \<open>Exceptions during a run\<close>

text \<open>
  Every exception of a callback is caught at line 169: the loop over the dates goes on
  with the next date whichever way the body ended, and a date on which an exception was
  caught gets no snapshot. With a strategy, a frame that is not empty, and the portfolio
  and the backlog as their classes leave them, \<^verbatim>\<open>run\<close> gets through the loop and then
  either returns a result or raises the \<^verbatim>\<open>OverflowError\<close> of line 253.
\<close>

lemma process_dates_step:
  "process_dates all_data securities (d # ds) engine
     = process_dates all_data securities ds (snd (process_date all_data securities d engine))"
  by (simp add: process_dates_def)

lemma run_after_loop:
  fixes self :: "'st BacktestEngine"
  assumes "strategy self = Some strat"
    and "\<not> df_empty (data_provider self securities start_date end_date frequency)"
    and "histories_parallel (portfolio self)"
    and "fills_recorded (order_manager self)"
  shows "(\<exists>res. run self start_date end_date securities frequency
            = (Inr res,
               (process_dates (data_provider self securities start_date end_date frequency)
                  securities
                  (trading_dates (data_provider self securities start_date end_date frequency))
                  (self\<lparr>strategy := Some (strat\<lparr>context_securities := securities\<rparr>)\<rparr>))
               \<lparr>results := Some res\<rparr>))
       \<or> run self start_date end_date securities frequency
            = (Inl OverflowError,
               process_dates (data_provider self securities start_date end_date frequency)
                  securities
                  (trading_dates (data_provider self securities start_date end_date frequency))
                  (self\<lparr>strategy := Some (strat\<lparr>context_securities := securities\<rparr>)\<rparr>))"
proof -
  let ?data = "data_provider self securities start_date end_date frequency"
  let ?s1 = "self\<lparr>strategy := Some (strat\<lparr>context_securities := securities\<rparr>)\<rparr>"
  let ?s2 = "process_dates ?data securities (trading_dates ?data) ?s1"
  from assms have "engine_ok ?s1" by (simp add: engine_ok_def)
  then have "engine_ok ?s2" by (rule process_dates_ok)
  from generate_results_cases [OF this] show ?thesis
  proof
    assume "\<exists>res. generate_results ?s2 = Inr res \<and>
           history_dates res = date_history (portfolio ?s2) \<and>
           history_total_value res = total_value_history (portfolio ?s2) \<and>
           history_cash res = cash_history (portfolio ?s2)"
    then obtain res where "generate_results ?s2 = Inr res" by blast
    with assms have "run self start_date end_date securities frequency
        = (Inr res, ?s2\<lparr>results := Some res\<rparr>)"
      by (simp add: run_def Let_def)
    then show ?thesis by blast
  next
    assume "generate_results ?s2 = Inl OverflowError"
    with assms have "run self start_date end_date securities frequency
        = (Inl OverflowError, ?s2)"
      by (simp add: run_def Let_def)
    then show ?thesis by blast
  qed
qed

subsection \<open>The second scenario, evaluated\<close>

lemma rally_engine_eq:
  "rally_engine =
     \<lparr>data_provider = (\<lambda>securities start_date end_date frequency. rally_prices),
      portfolio = new_portfolio 1000,
      order_manager = \<lparr>commission_rate = 0.0003, slippage = 0.001, orders = []\<rparr>,
      strategy = Some buy_and_hold,
      results = None\<rparr>"
  by (simp add: rally_engine_def set_strategy_def call_hook_def Let_def buy_and_hold_def quiet_def
      init_engine_def)

lemma trading_dates_rally: "trading_dates rally_prices = [jan 2, jan 3]"
  by (simp add: trading_dates_def rally_prices_def jan_def chrono_def)

lemma columns_rally: "columns rally_prices = ohlcv"
  by (simp add: rally_prices_def)

lemma daily_slice_rally:
  "daily_slice rally_prices (jan 2)
     = Series ohlcv \<lparr>idx = jan 2, row_security = ''A'', close = Some 1\<rparr>"
  "daily_slice rally_prices (jan 3)
     = Series ohlcv \<lparr>idx = jan 3, row_security = ''A'', close = Some 1000\<rparr>"
  by (simp_all add: daily_slice_def rally_prices_def jan_def Let_def ohlcv_def)

lemma rally_portfolio:
  "portfolio (process_dates rally_prices [''A''] (trading_dates rally_prices)
     (rally_engine\<lparr>strategy := Some (buy_and_hold\<lparr>context_securities := [''A'']\<rparr>)\<rparr>))
   = \<lparr>initial_cash = 1000, cash = 98.82973,
      positions = [(''A'', \<lparr>Position.security = ''A'', amount = 900, avg_cost = 1.001,
                            last_price = 1000\<rparr>)],
      date_history = [jan 2, jan 3],
      total_value_history = [998.82973, 900098.82973],
      cash_history = [98.82973, 98.82973]\<rparr>"
  by (simp add: trading_dates_rally process_dates_def rally_engine_eq process_date_def
      daily_slice_rally columns_rally Let_def call_hook_def buy_and_hold_def quiet_def
      jan_inject process_orders_def pending_orders_def new_order_def settle_order_def
      process_order_def ohlcv_def get_commission_def new_portfolio_def add_position_def
      get_position_def day_prices_def update_prices_def record_snapshot_def total_value_def)

lemma rally_outcomes:
  "fst (process_date rally_prices [''A''] (jan 2)
          (rally_engine\<lparr>strategy := Some (buy_and_hold\<lparr>context_securities := [''A'']\<rparr>)\<rparr>))
     = Recorded
   \<and> fst (process_date rally_prices [''A''] (jan 3)
            (snd (process_date rally_prices [''A''] (jan 2)
               (rally_engine\<lparr>strategy := Some (buy_and_hold\<lparr>context_securities := [''A'']\<rparr>)\<rparr>))))
     = Recorded"
  by (simp add: rally_engine_eq process_date_def
      daily_slice_rally columns_rally Let_def call_hook_def buy_and_hold_def quiet_def
      jan_inject process_orders_def pending_orders_def new_order_def settle_order_def
      process_order_def ohlcv_def get_commission_def new_portfolio_def add_position_def
      get_position_def day_prices_def update_prices_def record_snapshot_def total_value_def)

text \<open>
  C4: \<^verbatim>\<open>run\<close> does not always return a result. In the second scenario a strategy is
  attached to a new engine and the frame is not empty; both dates are worked through
  without any exception and each gets its snapshot, with total values 998.82973 and
  900,098.82973. The total return is 899.09882973, the annual return is 900.09882973 to
  the power 126, beyond the largest float, and \<^verbatim>\<open>run\<close> raises \<^verbatim>\<open>OverflowError\<close> and
  stores no result.
\<close>

theorem run_raises_overflow:
  "strategy rally_engine = Some buy_and_hold
   \<and> \<not> df_empty (data_provider rally_engine [''A''] (jan 1) (jan 9) ''daily'')
   \<and> trading_dates (data_provider rally_engine [''A''] (jan 1) (jan 9) ''daily'') = [jan 2, jan 3]
   \<and> total_value_history (portfolio (snd (run rally_engine (jan 1) (jan 9) [''A''] ''daily'')))
       = [998.82973, 900098.82973]
   \<and> total_profit_rate
        (get_summary (portfolio (snd (run rally_engine (jan 1) (jan 9) [''A''] ''daily''))))
       = 899.09882973
   \<and> fst (run rally_engine (jan 1) (jan 9) [''A''] ''daily'') = Inl OverflowError
   \<and> results (snd (run rally_engine (jan 1) (jan 9) [''A''] ''daily'')) = None"
proof -
  let ?s1 = "rally_engine\<lparr>strategy := Some (buy_and_hold\<lparr>context_securities := [''A'']\<rparr>)\<rparr>"
  let ?s2 = "process_dates rally_prices [''A''] (trading_dates rally_prices) ?s1"
  have s: "strategy rally_engine = Some buy_and_hold"
    and d: "data_provider rally_engine securities start_date end_date frequency = rally_prices"
    for securities start_date end_date frequency
    by (simp_all add: rally_engine_eq)
  have n: "\<not> df_empty rally_prices"
    by (simp add: df_empty_def rally_prices_def ohlcv_def)
  have t: "total_profit_rate (get_summary (portfolio ?s2)) = 899.09882973"
    by (simp add: rally_portfolio get_summary_def total_value_def)
  have "annualize (total_profit_rate (get_summary (portfolio ?s2)))
          (length (total_value_history (portfolio ?s2))) = Inl OverflowError"
    unfolding t by (rule annualize_overflow) (simp_all add: rally_portfolio)
  then have g: "generate_results ?s2 = Inl OverflowError"
    by (intro generate_results_overflow) (simp_all add: rally_portfolio)
  have r: "run rally_engine (jan 1) (jan 9) [''A''] ''daily'' = (Inl OverflowError, ?s2)"
    by (simp add: run_def s d n g Let_def)
  have r2: "results ?s2 = None"
    by (simp add: trading_dates_rally process_dates_def rally_engine_eq process_date_def
      daily_slice_rally columns_rally Let_def call_hook_def buy_and_hold_def quiet_def
      jan_inject process_orders_def pending_orders_def new_order_def settle_order_def
      process_order_def ohlcv_def get_commission_def new_portfolio_def add_position_def
      get_position_def day_prices_def update_prices_def record_snapshot_def total_value_def)
  have h: "total_value_history (portfolio ?s2) = [998.82973, 900098.82973]"
    by (simp add: rally_portfolio)
  show ?thesis
    unfolding r d fst_conv snd_conv
    using s n trading_dates_rally h t r2 by simp
qed

subsection \<open>A run without trading dates\<close>

lemma call_hook_data_provider: "data_provider (snd (call_hook h self)) = data_provider self"
  by (simp add: call_hook_def Let_def split: option.splits)

text \<open>
  \<^verbatim>\<open>run\<close> creates no portfolio: the one of \<^verbatim>\<open>__init__\<close> (line 37) is used by every run
  of the engine. Without a \<^verbatim>\<open>DatetimeIndex\<close> a run leaves it as it found it.
\<close>

lemma run_without_dates_portfolio:
  assumes "\<not> datetime_index (data_provider self securities start_date end_date frequency)"
  shows "portfolio (snd (run self start_date end_date securities frequency)) = portfolio self"
  using assms
  by (simp add: run_def Let_def trading_dates_def process_dates_def split: option.splits sum.splits)

text \<open>
  C10: for a new engine with a strategy attached and a frame that is not empty but has no
  \<^verbatim>\<open>DatetimeIndex\<close>, the list of trading dates is empty and \<^verbatim>\<open>run\<close> returns a result;
  the engine is as before, but for the securities in the context of the strategy and the
  stored result: no callback was called, no order settled, no snapshot recorded. The
  history lists of the result are empty.
\<close>

theorem run_without_datetime_index:
  fixes self :: "'st BacktestEngine"
  assumes "self = snd (set_strategy (init_engine dp c0 r0 s0) strat)"
    and "\<not> df_empty (dp securities start_date end_date frequency)"
    and "\<not> datetime_index (dp securities start_date end_date frequency)"
  shows "trading_dates (data_provider self securities start_date end_date frequency) = []
     \<and> (\<exists>st res. strategy self = Some st
          \<and> run self start_date end_date securities frequency
            = (Inr res, self\<lparr>strategy := Some (st\<lparr>context_securities := securities\<rparr>),
                             results := Some res\<rparr>)
          \<and> history_dates res = [] \<and> history_total_value res = [] \<and> history_cash res = [])"
proof -
  let ?data = "data_provider self securities start_date end_date frequency"
  have dp: "data_provider self = dp"
    by (simp add: assms(1) set_strategy_def call_hook_data_provider init_engine_def)
  have pf: "portfolio self = new_portfolio c0"
    by (simp add: assms(1) set_strategy_def call_hook_portfolio init_engine_def)
  have ok: "engine_ok self"
    unfolding assms(1) by (rule set_strategy_ok) (rule init_engine_ok)
  obtain st where st: "strategy self = Some st"
    by (auto simp: assms(1) set_strategy_def call_hook_def Let_def)
  let ?s1 = "self\<lparr>strategy := Some (st\<lparr>context_securities := securities\<rparr>)\<rparr>"
  from assms dp have d: "trading_dates ?data = []" by (simp add: trading_dates_def)
  then have f: "process_dates ?data securities (trading_dates ?data) ?s1 = ?s1"
    by (simp add: process_dates_def)
  from ok have ok1: "engine_ok ?s1" by (simp add: engine_ok_def)
  have "annualize (total_profit_rate (get_summary (portfolio ?s1)))
          (length (total_value_history (portfolio ?s1))) = Inr (Real_value 0)"
    by (simp add: pf new_portfolio_def annualize_empty)
  from generate_results_ok [OF ok1 this] obtain res where
    "generate_results ?s1 = Inr res"
    "history_dates res = date_history (portfolio self)"
    "history_total_value res = total_value_history (portfolio self)"
    "history_cash res = cash_history (portfolio self)"
    by auto
  with assms(2,3) dp st d f show ?thesis by (simp add: run_def Let_def pf new_portfolio_def)
qed

theorem run_without_datetime_index_witness:
  "trading_dates (flat_prices\<lparr>datetime_index := False\<rparr>) = []
   \<and> (\<exists>res. fst (run undated_engine (jan 1) (jan 9) [''A''] ''daily'') = Inr res
         \<and> history_dates res = [] \<and> history_total_value res = [] \<and> history_cash res = [])
   \<and> portfolio (snd (run undated_engine (jan 1) (jan 9) [''A''] ''daily'')) = new_portfolio 1000000
   \<and> orders (order_manager (snd (run undated_engine (jan 1) (jan 9) [''A''] ''daily''))) = []"
proof -
  let ?dp = "\<lambda>securities start_date end_date frequency. flat_prices\<lparr>datetime_index := False\<rparr>"
  have a: "undated_engine = snd (set_strategy (init_engine ?dp 1000000 0.0003 0.001) buy_once)"
    "\<not> df_empty (?dp [''A''] (jan 1) (jan 9) ''daily'')"
    "\<not> datetime_index (?dp [''A''] (jan 1) (jan 9) ''daily'')"
    by (simp_all add: undated_engine_def df_empty_def flat_prices_def ohlcv_def)
  have p: "portfolio undated_engine = new_portfolio 1000000"
    "orders (order_manager undated_engine) = []"
    "data_provider undated_engine = ?dp"
    by (simp_all add: undated_engine_def set_strategy_def call_hook_def Let_def init_engine_def
        buy_once_def quiet_def)
  note t = run_without_datetime_index
    [where securities = "[''A'']" and start_date = "jan 1" and end_date = "jan 9"
       and frequency = "''daily''", OF a]
  from t p show ?thesis
    by auto
qed

section \<open>Properties of the results\<close>

subsection \<open>Sums of floats\<close>


lemma fadd_NaN_right [simp]: "fadd x NaN = NaN"
  by (cases x) simp_all

lemma foldl_fadd_NaN_acc: "foldl fadd NaN xs = NaN"
  by (induction xs) simp_all

lemma foldl_fadd_NaN: "NaN \<in> set xs \<Longrightarrow> foldl fadd acc xs = NaN"
  by (induction xs arbitrary: acc) (auto simp: foldl_fadd_NaN_acc)

lemma fadd_Num_iff: "fadd x y = Num c \<longleftrightarrow> (\<exists>a b. x = Num a \<and> y = Num b \<and> c = a + b)"
  by (cases x; cases y) auto

lemma foldl_fadd_Num:
  "foldl fadd acc xs = Num c \<Longrightarrow> (\<exists>a. acc = Num a) \<and> (\<forall>x \<in> set xs. \<exists>a. x = Num a)"
proof (induction xs arbitrary: acc)
  case Nil
  then show ?case by simp
next
  case (Cons x xs)
  from Cons.IH [of "fadd acc x"] Cons.prems
  have "(\<exists>a. fadd acc x = Num a) \<and> (\<forall>x \<in> set xs. \<exists>a. x = Num a)" by simp
  then show ?case by (auto simp: fadd_Num_iff)
qed

lemma foldl_fadd_map_Num: "foldl fadd (Num a) (map Num as) = Num (a + sum_list as)"
  by (induction as arbitrary: a) (simp_all add: add.assoc)

lemma series_sum_map_Num: "series_sum (map Num as) = Num (sum_list as)"
  by (simp add: series_sum_def foldl_fadd_map_Num)

lemma fadd_PInf: "fadd x y = PInf \<Longrightarrow> x = PInf \<or> y = PInf"
  by (cases x; cases y) simp_all

lemma fadd_NInf: "fadd x y = NInf \<Longrightarrow> x = NInf \<or> y = NInf"
  by (cases x; cases y) simp_all

lemma foldl_fadd_PInf: "foldl fadd acc xs = PInf \<Longrightarrow> acc = PInf \<or> PInf \<in> set xs"
proof (induction xs arbitrary: acc)
  case Nil
  then show ?case by simp
next
  case (Cons x xs)
  from Cons.IH [of "fadd acc x"] Cons.prems have "fadd acc x = PInf \<or> PInf \<in> set xs" by simp
  then show ?case by (auto dest: fadd_PInf)
qed

lemma foldl_fadd_NInf: "foldl fadd acc xs = NInf \<Longrightarrow> acc = NInf \<or> NInf \<in> set xs"
proof (induction xs arbitrary: acc)
  case Nil
  then show ?case by simp
next
  case (Cons x xs)
  from Cons.IH [of "fadd acc x"] Cons.prems have "fadd acc x = NInf \<or> NInf \<in> set xs" by simp
  then show ?case by (auto dest: fadd_NInf)
qed

text \<open>The sum of squared deviations is \<open>NaN\<close> as soon as the average is not a number.\<close>

lemma deviations_NaN:
  assumes "vs \<noteq> []" and "series_sum vs = S" and "\<forall>a. S \<noteq> Num a" and "0 < n"
  shows "series_sum (map (\<lambda>x. fmul (fsub (fdiv S (Num n)) x) (fsub (fdiv S (Num n)) x)) vs) = NaN"
proof -
  let ?avg = "fdiv S (Num n)"
  have "\<exists>x \<in> set vs. fsub ?avg x = NaN"
  proof (cases S)
    case (Num a)
    with assms(3) show ?thesis by simp
  next
    case PInf
    with assms(2) have "PInf \<in> set vs"
      using foldl_fadd_PInf [of "Num 0" vs] by (simp add: series_sum_def)
    moreover from PInf assms(4) have "?avg = PInf" by (simp add: signed_inf_def)
    ultimately show ?thesis by (auto simp: fsub_def intro!: bexI [of _ PInf])
  next
    case NInf
    with assms(2) have "NInf \<in> set vs"
      using foldl_fadd_NInf [of "Num 0" vs] by (simp add: series_sum_def)
    moreover from NInf assms(4) have "?avg = NInf" by (simp add: signed_inf_def)
    ultimately show ?thesis by (auto simp: fsub_def intro!: bexI [of _ NInf])
  next
    case NaN
    with assms(1) show ?thesis by (cases vs) (auto simp: fsub_def)
  qed
  then have "NaN \<in> set (map (\<lambda>x. fmul (fsub ?avg x) (fsub ?avg x)) vs)"
    by force
  then show ?thesis by (simp add: series_sum_def foldl_fadd_NaN)
qed

lemma all_Num_map: "(\<forall>x \<in> set xs. \<exists>a. x = Num a) \<Longrightarrow> \<exists>as. xs = map Num as"
proof (induction xs)
  case Nil
  then show ?case by simp
next
  case (Cons x xs)
  then obtain a as where "x = Num a" "xs = map Num as" by auto
  then have "x # xs = map Num (a # as)" by simp
  then show ?case by (rule exI)
qed



lemma filter_map_Num: "filter (\<lambda>x. x \<noteq> NaN) (map Num as) = map Num as"
  by (induction as) simp_all

lemma mean_map_Num:
  "mean (map Num as) = (if as = [] then NaN else Num (sum_list as / real (length as)))"
  by (simp add: mean_def filter_map_Num series_sum_map_Num)

lemma sample_variance_nonneg: "0 \<le> sample_variance as"
proof -
  have "0 \<le> sum_list (map (\<lambda>a. (m - a) * (m - a)) as)" for m :: real
    by (rule sum_list_nonneg) auto
  then show ?thesis by (simp add: sample_variance_def)
qed

lemma std_map_Num:
  "std (map Num as) = (if length as \<le> 1 then NaN else Num (sqrt (sample_variance as)))"
proof (cases "length as \<le> 1")
  case True
  then show ?thesis by (simp add: std_def filter_map_Num)
next
  case False
  let ?m = "sum_list as / real (length as)"
  from False have n: "real (length as) \<noteq> 0" "real (length as - 1) \<noteq> 0" by auto
  have sq: "map (\<lambda>x. fmul (fsub (Num ?m) x) (fsub (Num ?m) x)) (map Num as)
          = map Num (map (\<lambda>a. (?m - a) * (?m - a)) as)"
    by (simp add: fsub_def)
  have "std (map Num as) = fsqrt (Num (sample_variance as))"
    using False n
    by (simp add: std_def filter_map_Num series_sum_map_Num Let_def sq sample_variance_def
        del: map_map of_nat_diff)
  with sample_variance_nonneg [of as] show ?thesis using False by simp
qed

lemma std_filter: "std xs = std (filter (\<lambda>x. x \<noteq> NaN) xs)"
  by (simp add: std_def)

lemma mean_filter: "mean xs = mean (filter (\<lambda>x. x \<noteq> NaN) xs)"
  by (simp add: mean_def)

lemma std_not_all_Num:
  assumes "x \<in> set xs" and "x = PInf \<or> x = NInf"
  shows "std xs = NaN"
proof -
  let ?vs = "filter (\<lambda>x. x \<noteq> NaN) xs"
  from assms have mem: "x \<in> set ?vs" by auto
  show ?thesis
  proof (cases "length ?vs \<le> 1")
    case True
    then show ?thesis by (simp add: std_def)
  next
    case False
    have ne: "?vs \<noteq> []"
    proof
      assume "?vs = []"
      with mem show False by simp
    qed
    have "\<forall>a. series_sum ?vs \<noteq> Num a"
    proof (intro allI notI)
      fix a assume "series_sum ?vs = Num a"
      then have "\<forall>y \<in> set ?vs. \<exists>b. y = Num b"
        using foldl_fadd_Num [of "Num 0" ?vs a] by (simp add: series_sum_def)
      with mem assms(2) show False by auto
    qed
    from deviations_NaN [OF ne refl this, of "real (length ?vs)"] ne False
    show ?thesis by (simp add: std_def Let_def)
  qed
qed

lemma std_Num_imp:
  assumes "std xs = Num s"
  shows "\<exists>as. filter (\<lambda>x. x \<noteq> NaN) xs = map Num as \<and> 1 < length as
              \<and> s = sqrt (sample_variance as)"
proof -
  let ?vs = "filter (\<lambda>x. x \<noteq> NaN) xs"
  have "\<forall>x \<in> set ?vs. \<exists>a. x = Num a"
  proof
    fix x assume x: "x \<in> set ?vs"
    show "\<exists>a. x = Num a"
    proof (cases x)
      case PInf
      with x assms std_not_all_Num [of x xs] show ?thesis by simp
    next
      case NInf
      with x assms std_not_all_Num [of x xs] show ?thesis by simp
    next
      case NaN
      with x show ?thesis by simp
    qed simp
  qed
  then obtain as where as: "?vs = map Num as" using all_Num_map by blast
  with assms have "std (map Num as) = Num s" using std_filter [of xs] by simp
  then have "1 < length as \<and> s = sqrt (sample_variance as)"
    by (auto simp: std_map_Num split: if_splits)
  with as show ?thesis by blast
qed

lemma sharpe_of_std:
  assumes "std xs = Num s" and "0 < s"
  shows "\<exists>m. mean xs = Num m \<and> sharpe xs = Num (m / s * sqrt 252)"
proof -
  from std_Num_imp [OF assms(1)] obtain as where
    as: "filter (\<lambda>x. x \<noteq> NaN) xs = map Num as" "1 < length as" by blast
  then have "as \<noteq> []" by auto
  with as have m: "mean xs = Num (sum_list as / real (length as))"
    using mean_filter [of xs] by (simp add: mean_map_Num)
  with assms show ?thesis by (simp add: sharpe_def)
qed

lemma std_range: "std xs = NaN \<or> (\<exists>s. std xs = Num s)"
proof (cases "\<exists>x \<in> set xs. x = PInf \<or> x = NInf")
  case True
  then show ?thesis using std_not_all_Num by blast
next
  case False
  have "\<forall>x \<in> set (filter (\<lambda>x. x \<noteq> NaN) xs). \<exists>a. x = Num a"
  proof
    fix x assume "x \<in> set (filter (\<lambda>x. x \<noteq> NaN) xs)"
    with False have "x \<noteq> NaN" "x \<noteq> PInf" "x \<noteq> NInf" by auto
    then show "\<exists>a. x = Num a" by (cases x) simp_all
  qed
  then obtain as where "filter (\<lambda>x. x \<noteq> NaN) xs = map Num as" using all_Num_map by blast
  with std_filter [of xs] show ?thesis by (simp add: std_map_Num)
qed

lemma sharpe_finite: "\<exists>x. sharpe xs = Num x"
proof (cases "fgt0 (std xs)")
  case False
  then show ?thesis by (simp add: sharpe_def)
next
  case True
  with std_range [of xs] obtain s where s: "std xs = Num s" by auto
  with True have "0 < s" by simp
  from sharpe_of_std [OF s this] show ?thesis by blast
qed

lemma sharpe_zero: "std xs = Num 0 \<or> std xs = NaN \<Longrightarrow> sharpe xs = Num 0"
  by (auto simp: sharpe_def)



lemma pct_change_flat:
  "fillna0 (pct_change (replicate n c)) = replicate n (Num 0)"
proof (cases n)
  case 0
  then show ?thesis by (simp add: fillna0_def)
next
  case (Suc k)
  have z: "zip (c # replicate k c) (replicate k c) = replicate k (c, c)"
    using zip_replicate [of "Suc k" c k c] by simp
  have "pct_change (replicate (Suc k) c)
          = NaN # replicate k (fsub (fdiv (Num c) (Num c)) (Num 1))"
    by (simp add: z)
  moreover have "fsub (fdiv (Num c) (Num c)) (Num 1) = NaN \<or>
                 fsub (fdiv (Num c) (Num c)) (Num 1) = Num 0"
    by (simp add: fsub_def signed_inf_def)
  ultimately show ?thesis
    using Suc by (auto simp: fillna0_def)
qed

lemma sample_variance_flat: "sample_variance (replicate n 0) = 0"
proof -
  have "sum_list (replicate n (0::real)) = 0" by (simp add: sum_list_replicate)
  then show ?thesis by (simp add: sample_variance_def sum_list_replicate)
qed

lemma std_flat: "std (replicate n (Num 0)) = (if n \<le> 1 then NaN else Num 0)"
proof -
  have "replicate n (Num 0) = map Num (replicate n 0)" by simp
  then show ?thesis
    by (simp only: std_map_Num length_replicate sample_variance_flat real_sqrt_zero)
qed

lemma sharpe_flat:
  assumes "\<forall>v \<in> set vs. v = c"
  shows "sharpe (fillna0 (pct_change vs)) = Num 0"
proof -
  from assms have "vs = replicate (length vs) c"
    by (simp add: replicate_length_same)
  then have "fillna0 (pct_change vs) = replicate (length vs) (Num 0)"
    using pct_change_flat [of "length vs" c] by simp
  then show ?thesis by (simp add: sharpe_def std_flat)
qed

lemma sharpe_single:
  assumes "length vs \<le> 1"
  shows "sharpe (fillna0 (pct_change vs)) = Num 0"
proof -
  from assms have "vs = [] \<or> (\<exists>v. vs = [v])"
    by (cases vs) auto
  then show ?thesis
    by (auto simp: sharpe_def std_def fillna0_def)
qed

text \<open>
  C8: the Sharpe ratio of the results is the one of the series of percentage changes of
  the total-value history. When the standard deviation of that series is a positive
  number, the mean is a number too and the ratio is mean over standard deviation times
  the square root of 252. When the standard deviation is zero or \<^verbatim>\<open>NaN\<close> the ratio is
  zero; the standard deviation is never anything else, so the ratio is always a finite
  number. A flat history and a history of at most one point give the ratio zero.
\<close>

theorem sharpe_ratio_guarded:
  "(generate_results self = Inr res \<longrightarrow>
      returns_pct res = fillna0 (pct_change (total_value_history (portfolio self)))
      \<and> sharpe_ratio (metrics res) = sharpe (returns_pct res))
   \<and> (\<forall>s. std r = Num s \<and> 0 < s \<longrightarrow>
         (\<exists>m. mean r = Num m \<and> sharpe r = Num (m / s * sqrt 252)))
   \<and> (std r = Num 0 \<or> std r = NaN \<longrightarrow> sharpe r = Num 0)
   \<and> (std r = NaN \<or> (\<exists>s. std r = Num s \<and> 0 \<le> s))
   \<and> (\<exists>x. sharpe r = Num x)
   \<and> ((\<forall>v \<in> set vs. v = c) \<longrightarrow> sharpe (fillna0 (pct_change vs)) = Num 0)
   \<and> (length vs \<le> 1 \<longrightarrow> sharpe (fillna0 (pct_change vs)) = Num 0)"
proof -
  have g: "generate_results self = Inr res \<longrightarrow>
      returns_pct res = fillna0 (pct_change (total_value_history (portfolio self)))
      \<and> sharpe_ratio (metrics res) = sharpe (returns_pct res)"
    by (auto simp: generate_results_def Let_def split: if_splits sum.splits)
  have "std r = NaN \<or> (\<exists>s. std r = Num s \<and> 0 \<le> s)"
  proof (cases "std r")
    case (Num s)
    from std_Num_imp [OF this] sample_variance_nonneg have "0 \<le> s" by auto
    with Num show ?thesis by simp
  qed (use std_range [of r] in auto)
  then show ?thesis
    using g sharpe_of_std [of r] sharpe_zero [of r] sharpe_finite [of r] sharpe_flat [of vs c]
      sharpe_single [of vs]
    by blast
qed

lemma rising_returns:
  "fillna0 (pct_change [100, 120, 144, 144, 158.4])
     = [Num 0, Num 0.2, Num 0.2, Num 0, Num 0.1]"
  by (simp add: fillna0_def fsub_def)

lemma rising_std:
  "std (fillna0 (pct_change [100, 120, 144, 144, 158.4])) = Num 0.1"
proof -
  have "sqrt (1 / 100) = 1 / 10"
    by (rule real_sqrt_unique) (simp_all add: power2_eq_square)
  moreover have "std [Num 0, Num 0.2, Num 0.2, Num 0, Num 0.1] = Num (sqrt (1 / 100))"
    by (simp add: std_def fsub_def series_sum_def Let_def)
  ultimately show ?thesis by (simp only: rising_returns)
qed

lemma rising_mean:
  "mean (fillna0 (pct_change [100, 120, 144, 144, 158.4])) = Num 0.1"
  unfolding rising_returns by (simp add: mean_def series_sum_def Let_def)

theorem sharpe_ratio_guarded_witness:
  "sharpe (fillna0 (pct_change [100, 120, 144, 144, 158.4])) = Num (sqrt 252)
   \<and> sharpe (fillna0 (pct_change [999869.97, 999869.97, 999869.97, 999869.97])) = Num 0
   \<and> sharpe (fillna0 (pct_change [1000000])) = Num 0
   \<and> (\<exists>res. generate_results (bought [jan 2, jan 4, jan 5, jan 8]) = Inr res
          \<and> sharpe_ratio (metrics res) = Num 0)"
proof -
  let ?r = "fillna0 (pct_change [100, 120, 144, 144, 158.4])"
  let ?flat = "[999869.97, 999869.97, 999869.97, 999869.97] :: real list"
  note t = sharpe_ratio_guarded
  have "std ?r = Num 0.1 \<and> (0::real) < 0.1"
    by (rule conjI [OF rising_std]) simp
  with t [of _ _ ?r] obtain m where
    m: "mean ?r = Num m" and s: "sharpe ?r = Num (m / 0.1 * sqrt 252)"
    by blast
  from m have "m = 0.1" unfolding rising_mean by simp
  with s have a: "sharpe ?r = Num (sqrt 252)" by simp
  have "\<forall>v \<in> set ?flat. v = 999869.97" by simp
  with t [of _ _ _ ?flat "999869.97"] have b: "sharpe (fillna0 (pct_change ?flat)) = Num 0"
    by blast
  have "length [1000000 :: real] \<le> 1" by simp
  with t [of _ _ _ "[1000000]"] have c: "sharpe (fillna0 (pct_change [1000000])) = Num 0"
    by blast
  have d: "\<exists>res. generate_results (bought [jan 2, jan 4, jan 5, jan 8]) = Inr res
          \<and> sharpe_ratio (metrics res) = Num 0"
    using scenario_results by auto
  from a b c d show ?thesis by simp
qed

subsection \<open>The order of the date strings\<close>


























end
